theory Spec2Isabelle
  imports Complex_Main
begin

section \<open>Tables, columns and cells\<close>

text \<open>
  The pipeline of \<^verbatim>\<open>data_cleaning.py\<close> works on pandas tables read from CSV files.
  A cell of an identifier or text column is a number, an infinity (a float column can
  hold \<^verbatim>\<open>inf\<close> and \<^verbatim>\<open>-inf\<close>), a piece of text or the missing value \<^verbatim>\<open>NaN\<close>.
  Integer and floating columns are both read as numbers, which pandas compares by
  numeric value.
\<close>

datatype cell = Number real | Infinity bool | Text string | NaN

text \<open>
  The \<^verbatim>\<open>isDropback\<close> column of the play table is boolean-like: pandas reads it as
  booleans, as booleans with missing values, or as text.
\<close>

datatype flag = Flag bool | FlagText string | FlagNaN

datatype error = ValueError | AttributeError | KeyError | IntCastingNaNError

text \<open>
  The rows of a table in order, each with its index label; a column taken out of a table
  (a pandas Series) keeps the labels. \<^verbatim>\<open>read_csv\<close> labels the rows \<open>0, 1, 2, \<dots>\<close>;
  read in chunks, the labels continue from one chunk to the next. Asking for chunks of
  fewer than one row raises \<^verbatim>\<open>ValueError\<close>.
\<close>

type_synonym 'a frame = "(nat \<times> 'a) list"

type_synonym 'v series = "(nat \<times> 'v) list"

text \<open>
  \<^verbatim>\<open>pd.DataFrame()\<close> is a table without any column; it is not the same as a table that
  has its columns and no row: asking it for a column raises \<^verbatim>\<open>KeyError\<close>.
\<close>

datatype 'a data_frame = DataFrame "'a frame" | EmptyDataFrame

definition read_csv :: "'a list \<Rightarrow> 'a frame" where
  "read_csv rows = enumerate 0 rows"

fun chunks :: "nat \<Rightarrow> 'a list \<Rightarrow> 'a list list" where
  "chunks n [] = []"
| "chunks n (r # rs) = (if n = 0 then [] else take n (r # rs) # chunks n (drop n (r # rs)))"

definition read_csv_chunks :: "nat \<Rightarrow> 'a list \<Rightarrow> error + 'a frame list" where
  "read_csv_chunks chunksize rows =
     (if chunksize = 0 then Inl ValueError else Inr (chunks chunksize (read_csv rows)))"

definition column :: "('a \<Rightarrow> 'v) \<Rightarrow> 'a frame \<Rightarrow> 'v series" where
  "column get df = map (\<lambda>(i, r). (i, get r)) df"

definition loc :: "('a \<Rightarrow> bool) \<Rightarrow> 'a frame \<Rightarrow> 'a frame" where
  "loc keep df = filter (\<lambda>(i, r). keep r) df"

text \<open>
  \<^verbatim>\<open>isin\<close> and \<^verbatim>\<open>unique\<close> treat the missing value like any other value: it is in a
  list that holds it, and \<^verbatim>\<open>unique\<close> keeps it once. \<^verbatim>\<open>unique\<close> keeps the order of the
  first occurrences.
\<close>

definition isin :: "'v list \<Rightarrow> 'v \<Rightarrow> bool" where
  "isin vals v \<longleftrightarrow> v \<in> set vals"

definition notnull :: "cell \<Rightarrow> bool" where
  "notnull v \<longleftrightarrow> v \<noteq> NaN"

definition unique :: "'v series \<Rightarrow> 'v list" where
  "unique s = rev (remdups (rev (map snd s)))"

definition pd_concat :: "'a frame list \<Rightarrow> 'a frame" where
  "pd_concat dfs = enumerate 0 (concat (map (map snd) dfs))"

text \<open>
  \<^verbatim>\<open>pd.to_numeric(col, errors='coerce')\<close> turns every cell into a finite number, an
  infinity or the missing value. Two things are not part of this repository and are
  parameters of every stage that coerces: how pandas reads a number out of a piece of
  text (it reads \<^verbatim>\<open>inf\<close> as an infinity), and which 64-bit integer the conversion to
  \<^verbatim>\<open>int\<close> yields for a finite number outside the 64-bit range. Every result below holds
  for all values of both.
\<close>

datatype numeric = Finite real | Infinite bool | Missing

record platform =
  parse_number :: "string \<Rightarrow> numeric"
  cast_out_of_range :: "real \<Rightarrow> int"

fun numeric_value :: "platform \<Rightarrow> cell \<Rightarrow> numeric" where
  "numeric_value pf (Number v) = Finite v"
| "numeric_value pf (Infinity positive) = Infinite positive"
| "numeric_value pf (Text t) = parse_number pf t"
| "numeric_value pf NaN = Missing"

definition to_numeric :: "platform \<Rightarrow> cell series \<Rightarrow> numeric series" where
  "to_numeric pf s = map (\<lambda>(i, v). (i, numeric_value pf v)) s"

text \<open>\<^verbatim>\<open>dropna\<close> removes the missing entries of the series together with their labels.\<close>

definition dropna :: "numeric series \<Rightarrow> numeric series" where
  "dropna s = filter (\<lambda>(i, v). v \<noteq> Missing) s"

text \<open>
  \<^verbatim>\<open>astype(int)\<close> raises \<^verbatim>\<open>IntCastingNaNError\<close> when the series holds a value that
  is not finite; otherwise every value is truncated towards zero to a 64-bit integer.
\<close>

definition truncate_real :: "real \<Rightarrow> int" where
  "truncate_real v = (if 0 \<le> v then \<lfloor>v\<rfloor> else \<lceil>v\<rceil>)"

definition int64_of :: "platform \<Rightarrow> real \<Rightarrow> int" where
  "int64_of pf v =
     (if - (2 ^ 63) \<le> truncate_real v \<and> truncate_real v < 2 ^ 63 then truncate_real v
      else cast_out_of_range pf v)"

fun is_finite :: "numeric \<Rightarrow> bool" where
  "is_finite (Finite v) = True"
| "is_finite v = False"

fun int_cell :: "platform \<Rightarrow> numeric \<Rightarrow> cell" where
  "int_cell pf (Finite v) = Number (of_int (int64_of pf v))"
| "int_cell pf v = NaN"

definition astype_int :: "platform \<Rightarrow> numeric series \<Rightarrow> error + cell series" where
  "astype_int pf s =
     (if list_all (\<lambda>(i, v). is_finite v) s then Inr (map (\<lambda>(i, v). (i, int_cell pf v)) s)
      else Inl IntCastingNaNError)"

text \<open>
  \<^verbatim>\<open>df[c] = s\<close> aligns the series \<open>s\<close> with the table on the index labels: a row whose
  label is not in \<open>s\<close> gets the missing value in column \<open>c\<close>. The row itself stays.
\<close>

definition assign_column :: "'v \<Rightarrow> ('v \<Rightarrow> 'a \<Rightarrow> 'a) \<Rightarrow> 'v series \<Rightarrow> 'a frame \<Rightarrow> 'a frame" where
  "assign_column na put s df =
     map (\<lambda>(i, r). (i, put (case map_of s i of Some v \<Rightarrow> v | None \<Rightarrow> na) r)) df"

text \<open>
  The line \<^verbatim>\<open>df[c] = pd.to_numeric(df[c], errors='coerce').dropna().astype(int)\<close>.
\<close>

definition coerce_column ::
  "platform \<Rightarrow> ('a \<Rightarrow> cell) \<Rightarrow> (cell \<Rightarrow> 'a \<Rightarrow> 'a) \<Rightarrow> 'a frame \<Rightarrow> error + 'a frame" where
  "coerce_column pf get put df =
     (case astype_int pf (dropna (to_numeric pf (column get df))) of
        Inl e \<Rightarrow> Inl e
      | Inr s \<Rightarrow> Inr (assign_column NaN put s df))"

text \<open>
  \<^verbatim>\<open>merge\<close> on the key columns: the rows of the left table in order, each paired with
  the rows of the right table that carry the same key, in order. Equal numbers match, and
  a missing key matches a missing key. The result is labelled afresh. A left merge keeps
  a left row without a partner, filled up with missing values. A left table without
  columns has no key column: \<^verbatim>\<open>KeyError\<close>. Both stages that merge have coerced key
  columns on the right, which hold integers and missing values. pandas compares two
  integer columns exactly, compares an integer column with a floating column as float64
  values, and refuses to merge it with a column of text; the last two are not modelled,
  and the results below on what a merge returns take the key columns of the left table
  to be integer columns, as tracking ingestion leaves them.
\<close>

definition merge_inner ::
  "('a \<Rightarrow> 'k) \<Rightarrow> ('b \<Rightarrow> 'k) \<Rightarrow> ('a \<Rightarrow> 'b \<Rightarrow> 'c) \<Rightarrow> 'a data_frame \<Rightarrow> 'b frame
     \<Rightarrow> error + 'c data_frame" where
  "merge_inner left_on right_on combine left right =
     (case left of
        EmptyDataFrame \<Rightarrow> Inl KeyError
      | DataFrame rows \<Rightarrow>
          Inr (DataFrame (enumerate 0 (concat (map (\<lambda>(i, l).
            map (\<lambda>(j, r). combine l r) (filter (\<lambda>(j, r). right_on r = left_on l) right))
              rows)))))"

definition merge_left ::
  "('a \<Rightarrow> 'k) \<Rightarrow> ('b \<Rightarrow> 'k) \<Rightarrow> ('a \<Rightarrow> 'b \<Rightarrow> 'c) \<Rightarrow> ('a \<Rightarrow> 'c) \<Rightarrow> 'a data_frame \<Rightarrow> 'b frame
     \<Rightarrow> error + 'c data_frame" where
  "merge_left left_on right_on combine unmatched left right =
     (case left of
        EmptyDataFrame \<Rightarrow> Inl KeyError
      | DataFrame rows \<Rightarrow>
          Inr (DataFrame (enumerate 0 (concat (map (\<lambda>(i, l).
            (case filter (\<lambda>(j, r). right_on r = left_on l) right of
               [] \<Rightarrow> [unmatched l]
             | partners \<Rightarrow> map (\<lambda>(j, r). combine l r) partners)) rows)))))"

section \<open>The rows of the source files\<close>

text \<open>
  Each record lists the columns the pipeline reads or writes; columns it only carries
  along (\<^verbatim>\<open>displayName\<close>, \<^verbatim>\<open>s\<close>, \<^verbatim>\<open>a\<close>, \<dots>) are the \<open>more\<close> part
  of a record where a stage is generic in them. The roster's \<^verbatim>\<open>nflId\<close> is written
  \<open>roster_row.nflId\<close>. The coordinates \<^verbatim>\<open>x\<close> and \<^verbatim>\<open>y\<close> are float64 values; their type
  \<open>'f\<close> is left open, and so is numpy's arithmetic on them (see the distance engine).
\<close>

record roster_row =
  nflId :: cell
  position :: cell

record play_key =
  gameId :: cell
  playId :: cell

record player_key = play_key +
  nflId :: cell

record frame_key = player_key +
  frameId :: cell

record 'f tracking_row = frame_key +
  frameType :: cell
  x :: 'f
  y :: 'f

record 'f week_row = "'f tracking_row" +
  week :: cell

record play_context =
  quarter :: cell
  down :: cell
  yardsToGo :: cell
  yardlineSide :: cell
  yardlineNumber :: cell
  gameClock :: cell
  absoluteYardlineNumber :: cell

record context_row = play_key +
  contextual :: play_context

record play_row = context_row +
  isDropback :: flag

record player_play_row = player_key +
  routeRan :: cell

record 'f distance_row = frame_key +
  min_distance :: 'f
  max_distance :: 'f
  mean_distance :: 'f
  std_distance :: 'f

section \<open>PositionFilter\<close>

definition filter_players_by_position ::
  "platform \<Rightarrow> roster_row list \<Rightarrow> string list \<Rightarrow> error + cell list" where
  "filter_players_by_position pf players valid_positions =
     (let players_df = read_csv players;
          filtered_players_df = loc (\<lambda>r. isin (map Text valid_positions) (position r)) players_df
      in case coerce_column pf roster_row.nflId (\<lambda>v r. r\<lparr>roster_row.nflId := v\<rparr>)
                filtered_players_df of
           Inl e \<Rightarrow> Inl e
         | Inr filtered_players_df \<Rightarrow> Inr (unique (column roster_row.nflId filtered_players_df)))"

section \<open>TrackingIngest\<close>

definition with_week :: "int \<Rightarrow> 'f tracking_row \<Rightarrow> 'f week_row" where
  "with_week w r =
     \<lparr>gameId = gameId r, playId = playId r, nflId = nflId r, frameId = frameId r,
      frameType = frameType r, x = x r, y = y r, week = Number (of_int w)\<rparr>"

text \<open>One chunk: what it adds to \<^verbatim>\<open>week_data\<close> (nothing when every row is filtered out).\<close>

definition filter_chunk ::
  "platform \<Rightarrow> cell list \<Rightarrow> int \<Rightarrow> 'f tracking_row frame \<Rightarrow> error + 'f week_row frame list" where
  "filter_chunk pf valid_nfl_ids w chunk =
     (let filtered_chunk =
            loc (\<lambda>r. isin valid_nfl_ids (nflId r)
                    \<and> isin [Text ''BEFORE_SNAP'', Text ''SNAP''] (frameType r)) chunk
      in case coerce_column pf gameId (\<lambda>v r. r\<lparr>gameId := v\<rparr>) filtered_chunk of
           Inl e \<Rightarrow> Inl e
         | Inr filtered_chunk \<Rightarrow>
        (case coerce_column pf playId (\<lambda>v r. r\<lparr>playId := v\<rparr>) filtered_chunk of
           Inl e \<Rightarrow> Inl e
         | Inr filtered_chunk \<Rightarrow>
        (case coerce_column pf nflId (\<lambda>v r. r\<lparr>nflId := v\<rparr>) filtered_chunk of
           Inl e \<Rightarrow> Inl e
         | Inr filtered_chunk \<Rightarrow>
             Inr (if filtered_chunk \<noteq> []
                  then [map (\<lambda>(i, r). (i, with_week w r)) filtered_chunk] else []))))"

text \<open>The loop over the chunks of one file, appending to \<^verbatim>\<open>week_data\<close>.\<close>

fun filter_chunks ::
  "platform \<Rightarrow> cell list \<Rightarrow> int \<Rightarrow> 'f tracking_row frame list \<Rightarrow> error + 'f week_row frame list"
  where
  "filter_chunks pf valid_nfl_ids w [] = Inr []"
| "filter_chunks pf valid_nfl_ids w (chunk # later) =
     (case filter_chunk pf valid_nfl_ids w chunk of
        Inl e \<Rightarrow> Inl e
      | Inr this_chunk \<Rightarrow>
          (case filter_chunks pf valid_nfl_ids w later of
             Inl e \<Rightarrow> Inl e
           | Inr later_chunks \<Rightarrow> Inr (this_chunk @ later_chunks)))"

text \<open>One week: what it adds to \<^verbatim>\<open>all_weeks_data\<close>.\<close>

definition filter_week ::
  "platform \<Rightarrow> cell list \<Rightarrow> nat \<Rightarrow> int \<Rightarrow> 'f tracking_row list \<Rightarrow> error + 'f week_row frame list"
  where
  "filter_week pf valid_nfl_ids chunk_size w rows =
     (case read_csv_chunks chunk_size rows of
        Inl e \<Rightarrow> Inl e
      | Inr cs \<Rightarrow>
          (case filter_chunks pf valid_nfl_ids w cs of
             Inl e \<Rightarrow> Inl e
           | Inr week_data \<Rightarrow> Inr (if week_data \<noteq> [] then [pd_concat week_data] else [])))"

fun filter_weeks ::
  "platform \<Rightarrow> cell list \<Rightarrow> nat \<Rightarrow> (int \<times> 'f tracking_row list) list
     \<Rightarrow> error + 'f week_row frame list" where
  "filter_weeks pf valid_nfl_ids chunk_size [] = Inr []"
| "filter_weeks pf valid_nfl_ids chunk_size ((w, rows) # weeks) =
     (case filter_week pf valid_nfl_ids chunk_size w rows of
        Inl e \<Rightarrow> Inl e
      | Inr this_week \<Rightarrow>
          (case filter_weeks pf valid_nfl_ids chunk_size weeks of
             Inl e \<Rightarrow> Inl e
           | Inr later_weeks \<Rightarrow> Inr (this_week @ later_weeks)))"

text \<open>
  \<open>weeks\<close> pairs each week number with the rows of that week's file, in the order of
  the loop. When no row of any week survives, the result is \<^verbatim>\<open>pd.DataFrame()\<close>.
\<close>

definition filter_tracking_data ::
  "platform \<Rightarrow> cell list \<Rightarrow> (int \<times> 'f tracking_row list) list \<Rightarrow> nat
     \<Rightarrow> error + 'f week_row data_frame" where
  "filter_tracking_data pf valid_nfl_ids weeks chunk_size =
     (case filter_weeks pf valid_nfl_ids chunk_size weeks of
        Inl e \<Rightarrow> Inl e
      | Inr all_weeks_data \<Rightarrow>
          Inr (if all_weeks_data \<noteq> [] then DataFrame (pd_concat all_weeks_data)
               else EmptyDataFrame))"

section \<open>PassPlayFilter\<close>

fun replace_bools :: "flag \<Rightarrow> flag" where
  "replace_bools (Flag True) = FlagText ''TRUE''"
| "replace_bools (Flag False) = FlagText ''FALSE''"
| "replace_bools v = v"

fun fillna :: "string \<Rightarrow> flag \<Rightarrow> flag" where
  "fillna t FlagNaN = FlagText t"
| "fillna t v = v"

fun astype_str :: "flag \<Rightarrow> string" where
  "astype_str (FlagText t) = t"
| "astype_str (Flag b) = (if b then ''True'' else ''False'')"
| "astype_str FlagNaN = ''nan''"

text \<open>
  Upper case on the ASCII letters. Strings are lists of characters with codes up to 255;
  a character outside ASCII is left as it is (Python changes some of them, none into a
  letter of \<^verbatim>\<open>TRUE\<close>).
\<close>

definition upper_char :: "char \<Rightarrow> char" where
  "upper_char c =
     (if 97 \<le> (of_char c :: nat) \<and> (of_char c :: nat) \<le> 122
      then char_of ((of_char c :: nat) - 32) else c)"

definition str_upper :: "string \<Rightarrow> string" where
  "str_upper t = map upper_char t"

definition normalize_isDropback :: "flag \<Rightarrow> string" where
  "normalize_isDropback v = str_upper (astype_str (fillna ''FALSE'' (replace_bools v)))"

definition filter_for_pass_plays ::
  "platform \<Rightarrow> play_row list \<Rightarrow> 'a play_key_scheme data_frame
     \<Rightarrow> error + 'a play_key_scheme data_frame" where
  "filter_for_pass_plays pf plays tracking_data =
     (let plays_df = read_csv plays;
          plays_df = assign_column FlagNaN (\<lambda>v r. r\<lparr>isDropback := v\<rparr>)
                       (column (\<lambda>r. FlagText (normalize_isDropback (isDropback r))) plays_df)
                       plays_df;
          dropback_play_ids =
            map (\<lambda>(i, r). (i, \<lparr>gameId = gameId r, playId = playId r\<rparr>))
              (loc (\<lambda>r. isDropback r = FlagText ''TRUE'') plays_df)
      in case coerce_column pf gameId (\<lambda>v r. r\<lparr>gameId := v\<rparr>) dropback_play_ids of
           Inl e \<Rightarrow> Inl e
         | Inr dropback_play_ids \<Rightarrow>
        (case coerce_column pf playId (\<lambda>v r. r\<lparr>playId := v\<rparr>) dropback_play_ids of
           Inl e \<Rightarrow> Inl e
         | Inr dropback_play_ids \<Rightarrow>
             merge_inner (\<lambda>r. (gameId r, playId r)) (\<lambda>r. (gameId r, playId r)) (\<lambda>l r. l)
               tracking_data dropback_play_ids))"

section \<open>PlayContextMerge\<close>

definition missing_context :: play_context where
  "missing_context =
     \<lparr>quarter = NaN, down = NaN, yardsToGo = NaN, yardlineSide = NaN, yardlineNumber = NaN,
      gameClock = NaN, absoluteYardlineNumber = NaN\<rparr>"

text \<open>
  A merged row is the tracking row together with the seven contextual columns.
\<close>

definition merge_with_plays ::
  "platform \<Rightarrow> play_row list \<Rightarrow> 'a play_key_scheme data_frame
     \<Rightarrow> error + ('a play_key_scheme \<times> play_context) data_frame" where
  "merge_with_plays pf plays tracking_data =
     (let plays_df =
            map (\<lambda>(i, r). (i, \<lparr>gameId = gameId r, playId = playId r, contextual = contextual r\<rparr>))
              (read_csv plays)
      in case coerce_column pf gameId (\<lambda>v r. r\<lparr>gameId := v\<rparr>) plays_df of
           Inl e \<Rightarrow> Inl e
         | Inr plays_df \<Rightarrow>
        (case coerce_column pf playId (\<lambda>v r. r\<lparr>playId := v\<rparr>) plays_df of
           Inl e \<Rightarrow> Inl e
         | Inr plays_df \<Rightarrow>
             merge_left (\<lambda>r. (gameId r, playId r)) (\<lambda>r. (gameId r, playId r))
               (\<lambda>l r. (l, contextual r)) (\<lambda>l. (l, missing_context)) tracking_data plays_df))"

section \<open>RouteRecordFilter\<close>

definition filter_player_play_data ::
  "platform \<Rightarrow> 'a player_play_row_scheme list \<Rightarrow> error + player_play_row frame" where
  "filter_player_play_data pf player_plays =
     (let player_play_df = read_csv player_plays
      in case coerce_column pf gameId (\<lambda>v r. r\<lparr>gameId := v\<rparr>) player_play_df of
           Inl e \<Rightarrow> Inl e
         | Inr player_play_df \<Rightarrow>
        (case coerce_column pf playId (\<lambda>v r. r\<lparr>playId := v\<rparr>) player_play_df of
           Inl e \<Rightarrow> Inl e
         | Inr player_play_df \<Rightarrow>
        (case coerce_column pf nflId (\<lambda>v r. r\<lparr>nflId := v\<rparr>) player_play_df of
           Inl e \<Rightarrow> Inl e
         | Inr player_play_df \<Rightarrow>
             Inr (map (\<lambda>(i, r). (i, \<lparr>gameId = gameId r, playId = playId r, nflId = nflId r,
                                      routeRan = routeRan r\<rparr>))
                   (loc (\<lambda>r. notnull (routeRan r)) player_play_df)))))"

section \<open>ClockNormalizer\<close>

text \<open>
  Python's \<^verbatim>\<open>int\<close> on a string, base ten: white space around, one optional sign,
  then digits, where single underscores may stand between digits. Strings are lists of
  characters with codes up to 255; the limit CPython can put on the number of digits is
  not modelled.
\<close>

definition is_int_space :: "char \<Rightarrow> bool" where
  "is_int_space c \<longleftrightarrow> (of_char c :: nat) \<in> {9, 10, 11, 12, 13, 32, 133, 160}"

definition is_digit :: "char \<Rightarrow> bool" where
  "is_digit c \<longleftrightarrow> 48 \<le> (of_char c :: nat) \<and> (of_char c :: nat) \<le> 57"

definition digit_value :: "char \<Rightarrow> nat" where
  "digit_value c = of_char c - 48"

fun digits_from :: "nat \<Rightarrow> string \<Rightarrow> nat option" where
  "digits_from acc [] = Some acc"
| "digits_from acc (c # cs) =
     (if is_digit c then digits_from (10 * acc + digit_value c) cs
      else if c = CHR ''_'' then
        (case cs of
           [] \<Rightarrow> None
         | d # ds \<Rightarrow> if is_digit d then digits_from (10 * acc + digit_value d) ds else None)
      else if list_all is_int_space (c # cs) then Some acc else None)"

definition py_int :: "string \<Rightarrow> error + int" where
  "py_int s =
     (let t = dropWhile is_int_space s;
          neg = (case t of [] \<Rightarrow> False | c # cs \<Rightarrow> c = CHR ''-'');
          u = (case t of [] \<Rightarrow> [] | c # cs \<Rightarrow> if c = CHR ''-'' \<or> c = CHR ''+'' then cs else t)
      in case u of
           [] \<Rightarrow> Inl ValueError
         | d # ds \<Rightarrow>
             if \<not> is_digit d then Inl ValueError
             else (case digits_from (digit_value d) ds of
                     None \<Rightarrow> Inl ValueError
                   | Some n \<Rightarrow> Inr (if neg then - int n else int n)))"

fun split_on :: "char \<Rightarrow> string \<Rightarrow> string list" where
  "split_on sep [] = [[]]"
| "split_on sep (c # cs) =
     (if c = sep then [] # split_on sep cs
      else (c # hd (split_on sep cs)) # tl (split_on sep cs))"

definition str_split :: "cell \<Rightarrow> char \<Rightarrow> error + string list" where
  "str_split v sep = (case v of Text s \<Rightarrow> Inr (split_on sep s) | _ \<Rightarrow> Inl AttributeError)"

fun unpack_two_ints :: "string list \<Rightarrow> error + int \<times> int" where
  "unpack_two_ints [] = Inl ValueError"
| "unpack_two_ints [p] = (case py_int p of Inl e \<Rightarrow> Inl e | Inr a \<Rightarrow> Inl ValueError)"
| "unpack_two_ints [p, q] =
     (case py_int p of
        Inl e \<Rightarrow> Inl e
      | Inr a \<Rightarrow> (case py_int q of Inl e \<Rightarrow> Inl e | Inr b \<Rightarrow> Inr (a, b)))"
| "unpack_two_ints (p # q # r # rest) =
     (case py_int p of
        Inl e \<Rightarrow> Inl e
      | Inr a \<Rightarrow> (case py_int q of
                   Inl e \<Rightarrow> Inl e
                 | Inr b \<Rightarrow> (case py_int r of Inl e \<Rightarrow> Inl e | Inr c \<Rightarrow> Inl ValueError)))"

definition game_clock_seconds :: "cell \<Rightarrow> error + int" where
  "game_clock_seconds game_clock =
     (case str_split game_clock CHR '':'' of
        Inl e \<Rightarrow> Inl e
      | Inr parts \<Rightarrow>
          (case unpack_two_ints parts of
             Inl e \<Rightarrow> Inl e
           | Inr (minutes, seconds) \<Rightarrow> Inr (minutes * 60 + seconds)))"

definition convert_game_clock_to_seconds :: "cell \<Rightarrow> cell" where
  "convert_game_clock_to_seconds game_clock =
     (case game_clock_seconds game_clock of
        Inr n \<Rightarrow> Number (of_int n)
      | Inl e \<Rightarrow> NaN)"

section \<open>SpatialDistanceEngine\<close>

text \<open>
  \<^verbatim>\<open>groupby\<close> on the three key columns: a row with a missing value in a key column
  belongs to no group; the groups come in ascending order of their keys, column by
  column, and the rows of a group keep the order of the table. A table without columns
  has no key column: \<^verbatim>\<open>KeyError\<close>.
\<close>

type_synonym group_key = "cell \<times> cell \<times> cell"

fun text_le :: "string \<Rightarrow> string \<Rightarrow> bool" where
  "text_le [] t = True"
| "text_le (c # cs) [] = False"
| "text_le (c # cs) (d # ds) =
     ((of_char c :: nat) < of_char d \<or> (c = d \<and> text_le cs ds))"

fun cell_le :: "cell \<Rightarrow> cell \<Rightarrow> bool" where
  "cell_le (Number a) (Number b) = (a \<le> b)"
| "cell_le (Number a) (Infinity positive) = positive"
| "cell_le (Infinity positive) (Number b) = (\<not> positive)"
| "cell_le (Infinity p) (Infinity q) = (if p then q else True)"
| "cell_le (Text s) (Text t) = text_le s t"
| "cell_le (Number a) (Text t) = True"
| "cell_le (Infinity p) (Text t) = True"
| "cell_le (Text s) (Number b) = False"
| "cell_le (Text s) (Infinity q) = False"
| "cell_le v NaN = True"
| "cell_le NaN v = False"

fun key_le :: "group_key \<Rightarrow> group_key \<Rightarrow> bool" where
  "key_le (a, b, c) (a', b', c') =
     (if a \<noteq> a' then cell_le a a' else if b \<noteq> b' then cell_le b b' else cell_le c c')"

fun insert_key :: "group_key \<Rightarrow> group_key list \<Rightarrow> group_key list" where
  "insert_key k [] = [k]"
| "insert_key k (h # t) = (if key_le k h then k # h # t else h # insert_key k t)"

definition sort_keys :: "group_key list \<Rightarrow> group_key list" where
  "sort_keys ks = foldr insert_key ks []"

fun has_na :: "group_key \<Rightarrow> bool" where
  "has_na (a, b, c) = (a = NaN \<or> b = NaN \<or> c = NaN)"

definition groupby ::
  "('a \<Rightarrow> group_key) \<Rightarrow> 'a data_frame \<Rightarrow> error + (group_key \<times> 'a frame) list" where
  "groupby by df =
     (case df of
        EmptyDataFrame \<Rightarrow> Inl KeyError
      | DataFrame rows \<Rightarrow>
          Inr (map (\<lambda>k. (k, filter (\<lambda>(i, r). by r = k) rows))
                (sort_keys (remdups (filter (\<lambda>k. \<not> has_na k) (map (\<lambda>(i, r). by r) rows))))))"

text \<open>
  numpy's float64 arithmetic is not part of this repository and is not modelled: the
  operations the engine uses are parameters, and every result below holds whatever they
  compute. \<^verbatim>\<open>np.min\<close> and \<^verbatim>\<open>np.max\<close> raise \<^verbatim>\<open>ValueError\<close> on an empty list;
  \<^verbatim>\<open>np.mean\<close> and \<^verbatim>\<open>np.std\<close> are only reached on a list that \<^verbatim>\<open>np.min\<close> has
  accepted.
\<close>

record 'f numpy =
  subtract :: "'f \<Rightarrow> 'f \<Rightarrow> 'f"
  add :: "'f \<Rightarrow> 'f \<Rightarrow> 'f"
  square :: "'f \<Rightarrow> 'f"
  square_root :: "'f \<Rightarrow> 'f"
  amin :: "'f list \<Rightarrow> 'f"
  amax :: "'f list \<Rightarrow> 'f"
  mean :: "'f list \<Rightarrow> 'f"
  std :: "'f list \<Rightarrow> 'f"

definition np_min :: "'f numpy \<Rightarrow> 'f list \<Rightarrow> error + 'f" where
  "np_min np vs = (if vs = [] then Inl ValueError else Inr (amin np vs))"

definition np_max :: "'f numpy \<Rightarrow> 'f list \<Rightarrow> error + 'f" where
  "np_max np vs = (if vs = [] then Inl ValueError else Inr (amax np vs))"

definition np_mean :: "'f numpy \<Rightarrow> 'f list \<Rightarrow> 'f" where
  "np_mean np vs = mean np vs"

definition np_std :: "'f numpy \<Rightarrow> 'f list \<Rightarrow> 'f" where
  "np_std np vs = std np vs"

text \<open>A row of \<^verbatim>\<open>frame_group[['nflId', 'x', 'y']].values\<close>.\<close>

type_synonym 'f frame_player = "cell \<times> 'f \<times> 'f"

fun distance :: "'f numpy \<Rightarrow> 'f frame_player \<Rightarrow> 'f frame_player \<Rightarrow> 'f" where
  "distance np (n1, x1, y1) (n2, x2, y2) =
     square_root np (add np (square np (subtract np x1 x2)) (square np (subtract np y1 y2)))"

text \<open>The inner loop over \<open>j\<close>, appending to \<^verbatim>\<open>distances_for_player\<close>.\<close>

definition distances_for_player :: "'f numpy \<Rightarrow> 'f frame_player list \<Rightarrow> nat \<Rightarrow> 'f list" where
  "distances_for_player np frame_players i =
     fold (\<lambda>j ds. if i \<noteq> j
                   then ds @ [distance np (frame_players ! i) (frame_players ! j)] else ds)
       [0..<length frame_players] []"

fun player_summary ::
  "'f numpy \<Rightarrow> group_key \<Rightarrow> 'f frame_player list \<Rightarrow> nat \<Rightarrow> error + 'f distance_row" where
  "player_summary np (g, p, f) frame_players i =
     (let ds = distances_for_player np frame_players i
      in case np_min np ds of
           Inl e \<Rightarrow> Inl e
         | Inr lo \<Rightarrow>
             (case np_max np ds of
                Inl e \<Rightarrow> Inl e
              | Inr hi \<Rightarrow>
                  Inr \<lparr>gameId = g, playId = p, nflId = fst (frame_players ! i), frameId = f,
                       min_distance = lo, max_distance = hi, mean_distance = np_mean np ds,
                       std_distance = np_std np ds\<rparr>))"

text \<open>The loop over \<open>i\<close> within one group, and the loop over the groups.\<close>

fun group_summaries ::
  "'f numpy \<Rightarrow> group_key \<Rightarrow> 'f frame_player list \<Rightarrow> nat list \<Rightarrow> error + 'f distance_row list"
  where
  "group_summaries np k frame_players [] = Inr []"
| "group_summaries np k frame_players (i # rest) =
     (case player_summary np k frame_players i of
        Inl e \<Rightarrow> Inl e
      | Inr row \<Rightarrow>
          (case group_summaries np k frame_players rest of
             Inl e \<Rightarrow> Inl e
           | Inr rows \<Rightarrow> Inr (row # rows)))"

definition frame_players_of :: "('f, 'a) tracking_row_scheme frame \<Rightarrow> 'f frame_player list" where
  "frame_players_of frame_group = map (\<lambda>(i, r). (nflId r, x r, y r)) frame_group"

fun all_summaries ::
  "'f numpy \<Rightarrow> (group_key \<times> ('f, 'a) tracking_row_scheme frame) list
     \<Rightarrow> error + 'f distance_row list" where
  "all_summaries np [] = Inr []"
| "all_summaries np ((k, frame_group) # groups) =
     (let frame_players = frame_players_of frame_group
      in case group_summaries np k frame_players [0..<length frame_players] of
           Inl e \<Rightarrow> Inl e
         | Inr rows \<Rightarrow>
             (case all_summaries np groups of
                Inl e \<Rightarrow> Inl e
              | Inr later \<Rightarrow> Inr (rows @ later)))"

definition calculate_player_distances ::
  "'f numpy \<Rightarrow> ('f, 'a) tracking_row_scheme data_frame \<Rightarrow> error + 'f distance_row frame" where
  "calculate_player_distances np df =
     (case groupby (\<lambda>r. (gameId r, playId r, frameId r)) df of
        Inl e \<Rightarrow> Inl e
      | Inr groups \<Rightarrow>
          (case all_summaries np groups of
             Inl e \<Rightarrow> Inl e
           | Inr distances \<Rightarrow> Inr (enumerate 0 distances)))"

section \<open>Notions of the specification and examples\<close>

text \<open>
  The value a coerced identifier column holds in a row when the conversion does not
  raise: the truncated number where the cell reads as a finite number, the missing value
  where it reads as none.
\<close>

definition coerced :: "platform \<Rightarrow> cell \<Rightarrow> cell" where
  "coerced pf v = int_cell pf (numeric_value pf v)"

text \<open>An identifier cell that reads as an infinity.\<close>

definition reads_infinite :: "platform \<Rightarrow> cell \<Rightarrow> bool" where
  "reads_infinite pf v \<longleftrightarrow> (case numeric_value pf v of Infinite positive \<Rightarrow> True | _ \<Rightarrow> False)"

definition infinite_key :: "platform \<Rightarrow> 'a play_key_scheme \<Rightarrow> bool" where
  "infinite_key pf r \<longleftrightarrow> reads_infinite pf (gameId r) \<or> reads_infinite pf (playId r)"

definition infinite_id :: "platform \<Rightarrow> 'a player_key_scheme \<Rightarrow> bool" where
  "infinite_id pf r \<longleftrightarrow>
     reads_infinite pf (gameId r) \<or> reads_infinite pf (playId r) \<or> reads_infinite pf (nflId r)"

text \<open>A play row whose two key cells both read as finite numbers.\<close>

definition finite_key :: "platform \<Rightarrow> 'a play_key_scheme \<Rightarrow> bool" where
  "finite_key pf r \<longleftrightarrow>
     is_finite (numeric_value pf (gameId r)) \<and> is_finite (numeric_value pf (playId r))"

text \<open>The finite number a cell reads as (0 when it reads as none).\<close>

definition the_number :: "platform \<Rightarrow> cell \<Rightarrow> real" where
  "the_number pf c = (case numeric_value pf c of Finite v \<Rightarrow> v | Infinite positive \<Rightarrow> 0 | Missing \<Rightarrow> 0)"

text \<open>A row whose two key cells are 64-bit integers, as in a table with integer key columns.\<close>

fun is_int64 :: "cell \<Rightarrow> bool" where
  "is_int64 (Number v) = (v = of_int \<lfloor>v\<rfloor> \<and> - (2 ^ 63) \<le> v \<and> v < 2 ^ 63)"
| "is_int64 v = False"

definition integer_key :: "'a play_key_scheme \<Rightarrow> bool" where
  "integer_key r \<longleftrightarrow> is_int64 (gameId r) \<and> is_int64 (playId r)"

text \<open>A play row that counts as a pass play.\<close>

definition is_pass_play :: "'a play_row_scheme \<Rightarrow> bool" where
  "is_pass_play p \<longleftrightarrow> normalize_isDropback (isDropback p) = ''TRUE''"

text \<open>A row with its three identifier columns coerced.\<close>

definition coerce_ids :: "platform \<Rightarrow> 'a player_key_scheme \<Rightarrow> 'a player_key_scheme" where
  "coerce_ids pf r =
     r\<lparr>gameId := coerced pf (gameId r), playId := coerced pf (playId r),
       nflId := coerced pf (nflId r)\<rparr>"

text \<open>The test of tracking ingestion on a row, and the rows of a table.\<close>

definition selected :: "cell list \<Rightarrow> ('f, 'a) tracking_row_scheme \<Rightarrow> bool" where
  "selected valid_nfl_ids r \<longleftrightarrow>
     nflId r \<in> set valid_nfl_ids \<and> frameType r \<in> {Text ''BEFORE_SNAP'', Text ''SNAP''}"

fun rows_of :: "'a data_frame \<Rightarrow> 'a list" where
  "rows_of (DataFrame df) = map snd df"
| "rows_of EmptyDataFrame = []"

text \<open>
  A platform to run the coercing stages on examples: it reads plain digit strings and
  \<^verbatim>\<open>inf\<close>, and yields the least 64-bit integer for a number out of range.
\<close>

definition plain_digits :: "string \<Rightarrow> numeric" where
  "plain_digits t =
     (if t = ''inf'' then Infinite True
      else if t \<noteq> [] \<and> list_all is_digit t
      then Finite (real (fold (\<lambda>c n. 10 * n + digit_value c) t 0)) else Missing)"

definition example_platform :: platform where
  "example_platform = \<lparr>parse_number = plain_digits, cast_out_of_range = (\<lambda>v. - (2 ^ 63))\<rparr>"

section \<open>Properties of the clock conversion\<close>

lemma split_on_not_Nil: "split_on sep s \<noteq> []"
  by (induction s) auto

lemma split_on_no_sep: "sep \<notin> set s \<Longrightarrow> split_on sep s = [s]"
  by (induction s) auto

lemma split_on_append: "sep \<notin> set p \<Longrightarrow> split_on sep (p @ sep # q) = p # split_on sep q"
  by (induction p) auto

lemma split_on_single: "split_on sep s = [p] \<Longrightarrow> s = p \<and> sep \<notin> set p"
proof (induction s arbitrary: p)
  case Nil
  then show ?case by simp
next
  case (Cons c cs)
  show ?case
  proof (cases "c = sep")
    case True
    with Cons.prems show ?thesis by (simp add: split_on_not_Nil)
  next
    case False
    with Cons.prems have p: "p = c # hd (split_on sep cs)" and t: "tl (split_on sep cs) = []"
      by auto
    from t split_on_not_Nil [of sep cs] have "split_on sep cs = [hd (split_on sep cs)]"
      by (cases "split_on sep cs") auto
    from Cons.IH [OF this] p False show ?thesis by auto
  qed
qed

lemma split_on_pair:
  "split_on sep s = [p, q] \<Longrightarrow> s = p @ sep # q \<and> sep \<notin> set p \<and> sep \<notin> set q"
proof (induction s arbitrary: p)
  case Nil
  then show ?case by simp
next
  case (Cons c cs)
  show ?case
  proof (cases "c = sep")
    case True
    with Cons.prems have "p = []" and "split_on sep cs = [q]" by auto
    with split_on_single [of sep cs q] True show ?thesis by auto
  next
    case False
    with Cons.prems have p: "p = c # hd (split_on sep cs)" and t: "tl (split_on sep cs) = [q]"
      by auto
    from t have "split_on sep cs = [hd (split_on sep cs), q]"
      by (cases "split_on sep cs") auto
    from Cons.IH [OF this] p False show ?thesis by auto
  qed
qed

lemma digits_from_chars:
  "digits_from acc cs = Some n \<Longrightarrow> c \<in> set cs \<Longrightarrow> is_digit c \<or> c = CHR ''_'' \<or> is_int_space c"
proof (induction acc cs rule: digits_from.induct)
  case (1 acc)
  then show ?case by simp
next
  case (2 acc d ds)
  then show ?case
    by (auto split: if_splits list.splits simp: list_all_iff)
qed

lemma py_int_chars:
  assumes "py_int s = Inr a" and "c \<in> set s"
  shows "is_digit c \<or> c = CHR ''_'' \<or> is_int_space c \<or> c = CHR ''-'' \<or> c = CHR ''+''"
proof (cases "is_int_space c")
  case True
  then show ?thesis by simp
next
  case False
  define t where "t = dropWhile is_int_space s"
  from assms(2) False have ct: "c \<in> set t"
    unfolding t_def by (induction s) auto
  then obtain h r where t: "t = h # r" by (cases t) auto
  show ?thesis
  proof (cases "h = CHR ''-'' \<or> h = CHR ''+''")
    case True
    with assms(1) t obtain d ds n where r: "r = d # ds" and d: "is_digit d"
      and n: "digits_from (digit_value d) ds = Some n"
      unfolding py_int_def t_def [symmetric]
      by (auto simp: Let_def split: list.splits if_splits option.splits)
    from ct t r have "c = h \<or> c = d \<or> c \<in> set ds" by auto
    with True d digits_from_chars [OF n] show ?thesis by auto
  next
    case False
    with assms(1) t obtain n where d: "is_digit h"
      and n: "digits_from (digit_value h) r = Some n"
      unfolding py_int_def t_def [symmetric]
      by (auto simp: Let_def split: list.splits if_splits option.splits)
    from ct t have "c = h \<or> c \<in> set r" by auto
    with d digits_from_chars [OF n] show ?thesis by auto
  qed
qed

lemma py_int_no_colon: "py_int s = Inr a \<Longrightarrow> CHR '':'' \<notin> set s"
proof
  assume a: "py_int s = Inr a" and c: "CHR '':'' \<in> set s"
  from py_int_chars [OF a c] show False
    by (simp add: is_digit_def is_int_space_def)
qed

lemma clock_of_parts:
  assumes "py_int p = Inr a" and "py_int q = Inr b"
  shows "convert_game_clock_to_seconds (Text (p @ '':'' @ q)) = Number (of_int (a * 60 + b))"
proof -
  have "split_on CHR '':'' (p @ CHR '':'' # q) = [p, q]"
    using py_int_no_colon [OF assms(1)] py_int_no_colon [OF assms(2)]
    by (simp add: split_on_append split_on_no_sep)
  with assms show ?thesis
    by (simp add: convert_game_clock_to_seconds_def game_clock_seconds_def str_split_def)
qed

lemma unpack_two_ints_Inr:
  "unpack_two_ints parts = Inr (a, b) \<Longrightarrow> \<exists>p q. parts = [p, q] \<and> py_int p = Inr a \<and> py_int q = Inr b"
  by (induction parts rule: unpack_two_ints.induct) (auto split: sum.splits)

lemma clock_number_only_from_parts:
  assumes "convert_game_clock_to_seconds c \<noteq> NaN"
  shows "\<exists>p q a b. c = Text (p @ '':'' @ q) \<and> py_int p = Inr a \<and> py_int q = Inr b"
proof -
  from assms obtain s mb where c: "c = Text s" and u: "unpack_two_ints (split_on CHR '':'' s) = Inr mb"
    by (auto simp: convert_game_clock_to_seconds_def game_clock_seconds_def str_split_def
        split: sum.splits cell.splits)
  obtain a b where "mb = (a, b)" by (cases mb)
  with u unpack_two_ints_Inr obtain p q where pq: "split_on CHR '':'' s = [p, q]"
      and "py_int p = Inr a" and "py_int q = Inr b" by blast
  with split_on_pair [OF pq] c show ?thesis by auto
qed


lemma py_int_examples:
  "py_int ''15'' = Inr 15" "py_int ''00'' = Inr 0" "py_int ''45'' = Inr 45"
  "py_int ''2'' = Inr 2" "py_int ''5'' = Inr 5" "py_int ''0'' = Inr 0"
  "py_int ''99'' = Inr 99" "py_int ''-1'' = Inr (- 1)" "py_int ''30'' = Inr 30"
  by (simp_all add: py_int_def is_digit_def digit_value_def is_int_space_def)

lemma no_colon_no_parts:
  "CHR '':'' \<notin> set s \<Longrightarrow> \<nexists>p q a b. Text s = Text (p @ '':'' @ q) \<and> py_int p = Inr a \<and> py_int q = Inr b"
  by auto

text \<open>
  C4. A clock text made of two parts around one colon, both of which Python reads as
  integers, converts to minutes times sixty plus seconds; every other input (no such
  shape, a part that is not an integer, a value that is not text) converts to the missing
  value. The conversion is a total function: each exception of the body is caught.
\<close>

theorem clock_conversion:
  "(py_int p = Inr a \<and> py_int q = Inr b \<longrightarrow>
      convert_game_clock_to_seconds (Text (p @ '':'' @ q)) = Number (of_int (a * 60 + b)))
   \<and> ((\<nexists>p q a b. c = Text (p @ '':'' @ q) \<and> py_int p = Inr a \<and> py_int q = Inr b) \<longrightarrow>
      convert_game_clock_to_seconds c = NaN)"
  using clock_of_parts clock_number_only_from_parts by blast

theorem clock_conversion_witness:
  "convert_game_clock_to_seconds (Text ''15:00'') = Number 900
   \<and> convert_game_clock_to_seconds (Text ''00:45'') = Number 45
   \<and> convert_game_clock_to_seconds (Text ''2:5'') = Number 125
   \<and> convert_game_clock_to_seconds (Text '''') = NaN
   \<and> convert_game_clock_to_seconds (Text ''bad'') = NaN
   \<and> convert_game_clock_to_seconds NaN = NaN"
proof -
  have a: "convert_game_clock_to_seconds (Text ''15:00'') = Number 900"
    using clock_conversion [of "''15''" 15 "''00''" 0 NaN] py_int_examples by simp
  have b: "convert_game_clock_to_seconds (Text ''00:45'') = Number 45"
    using clock_conversion [of "''00''" 0 "''45''" 45 NaN] py_int_examples by simp
  have c: "convert_game_clock_to_seconds (Text ''2:5'') = Number 125"
    using clock_conversion [of "''2''" 2 "''5''" 5 NaN] py_int_examples by simp
  have d: "convert_game_clock_to_seconds (Text '''') = NaN"
    using clock_conversion [of "''0''" 0 "''0''" 0 "Text ''''"] by simp
  have e: "convert_game_clock_to_seconds (Text ''bad'') = NaN"
    using clock_conversion [of "''0''" 0 "''0''" 0 "Text ''bad''"] no_colon_no_parts [of "''bad''"]
    by simp
  have f: "convert_game_clock_to_seconds NaN = NaN"
    using clock_conversion [of "''0''" 0 "''0''" 0 NaN] by simp
  from a b c d e f show ?thesis by simp
qed

text \<open>
  C10. The conversion checks no range: for a text with exactly one colon whose two parts
  Python reads as the integers \<open>a\<close> and \<open>b\<close>, of any sign and size, the result is the
  number \<open>a * 60 + b\<close>, as for \<^verbatim>\<open>"0:99"\<close> and \<^verbatim>\<open>"-1:30"\<close>.
\<close>

theorem clock_has_no_range_check:
  assumes "s = p @ '':'' @ q" and "CHR '':'' \<notin> set p" and "CHR '':'' \<notin> set q"
    and "py_int p = Inr a" and "py_int q = Inr b"
  shows "convert_game_clock_to_seconds (Text s) = Number (of_int (a * 60 + b))"
  using assms clock_of_parts by simp

theorem clock_has_no_range_check_witness:
  "convert_game_clock_to_seconds (Text ''0:99'') = Number 99
   \<and> convert_game_clock_to_seconds (Text ''-1:30'') = Number (- 30)"
proof -
  have a: "convert_game_clock_to_seconds (Text ''0:99'') = Number 99"
    using clock_has_no_range_check [of "''0:99''" "''0''" "''99''" 0 99] py_int_examples
    by simp
  have b: "convert_game_clock_to_seconds (Text ''-1:30'') = Number (- 30)"
    using clock_has_no_range_check [of "''-1:30''" "''-1''" "''30''" "- 1" 30] py_int_examples
    by simp
  from a b show ?thesis by simp
qed

section \<open>Properties of tables\<close>

lemma distinct_labels_read_csv: "distinct (map fst (read_csv rows))"
  by (simp add: read_csv_def)

lemma rows_read_csv: "map snd (read_csv rows) = rows"
  by (simp add: read_csv_def)

lemma concat_chunks: "0 < n \<Longrightarrow> concat (chunks n rs) = rs"
  by (induction n rs rule: chunks.induct) auto

lemma distinct_labels_chunks:
  "distinct (map fst df) \<Longrightarrow> c \<in> set (chunks n df) \<Longrightarrow> distinct (map fst c)"
proof (induction n df rule: chunks.induct)
  case (1 n)
  then show ?case by simp
next
  case (2 n r rs)
  show ?case
  proof (cases "n = 0")
    case True
    with "2.prems" show ?thesis by simp
  next
    case False
    with "2.prems" have "c = take n (r # rs) \<or> c \<in> set (chunks n (drop n (r # rs)))"
      by simp
    then show ?thesis
    proof
      assume "c = take n (r # rs)"
      with "2.prems"(1) show ?thesis
        by (metis distinct_take take_map)
    next
      assume c: "c \<in> set (chunks n (drop n (r # rs)))"
      from "2.prems"(1) have "distinct (map fst (drop n (r # rs)))"
        by (metis distinct_drop drop_map)
      with "2.IH" False c show ?thesis by blast
    qed
  qed
qed

lemma rows_loc_enumerate:
  "map snd (filter (\<lambda>(i, r). keep r) (enumerate n rows)) = filter keep rows"
  by (induction rows arbitrary: n) auto

lemma rows_pd_concat: "map snd (pd_concat dfs) = concat (map (map snd) dfs)"
  by (simp add: pd_concat_def)

lemma labels_pd_concat: "map fst (pd_concat dfs) = [0..<length (concat (map (map snd) dfs))]"
  by (simp add: pd_concat_def)

lemma lookup_own_column:
  "distinct (map fst df) \<Longrightarrow> (i, r) \<in> set df \<Longrightarrow> map_of (column get df) i = Some (get r)"
  by (induction df) (auto simp: column_def rev_image_eqI)

lemma assign_own_column:
  assumes "distinct (map fst df)"
  shows "assign_column na put (column get df) df = map (\<lambda>(i, r). (i, put (get r) r)) df"
  unfolding assign_column_def
  by (rule map_cong [OF refl]) (auto simp: lookup_own_column [OF assms])

lemma rows_map_frame: "map snd (map (\<lambda>(i, r). (i, f r)) df) = map f (map snd df)"
  by (induction df) auto

lemma labels_map_frame: "map fst (map (\<lambda>(i, r). (i, f r)) df) = map fst df"
  by (induction df) auto

lemma rows_filter_frame: "map snd (filter (\<lambda>(i, r). P r) df) = filter P (map snd df)"
  by (induction df) auto

lemma labels_filter_frame: "distinct (map fst df) \<Longrightarrow> distinct (map fst (filter P df))"
  by (rule distinct_map_filter)

section \<open>Coercion: it raises on an infinity and otherwise keeps every row\<close>

lemma astype_int_eq:
  "astype_int pf s =
     (if \<forall>v \<in> snd ` set s. is_finite v then Inr (map (\<lambda>(i, v). (i, int_cell pf v)) s)
      else Inl IntCastingNaNError)"
proof -
  have "list_all (\<lambda>(i, v). is_finite v) s \<longleftrightarrow> (\<forall>v \<in> snd ` set s. is_finite v)"
    by (induction s) auto
  then show ?thesis by (simp add: astype_int_def)
qed

lemma values_dropna:
  "snd ` set (dropna (to_numeric pf (column get df))) =
     {v \<in> (\<lambda>r. numeric_value pf (get r)) ` snd ` set df. v \<noteq> Missing}"
  by (induction df) (auto simp: dropna_def to_numeric_def column_def)

lemma reads_infinite_iff:
  "reads_infinite pf c \<longleftrightarrow>
     numeric_value pf c \<noteq> Missing \<and> \<not> is_finite (numeric_value pf c)"
  by (cases "numeric_value pf c") (simp_all add: reads_infinite_def)

lemma finite_dropna:
  "(\<forall>v \<in> snd ` set (dropna (to_numeric pf (column get df))). is_finite v) \<longleftrightarrow>
     (\<forall>r \<in> snd ` set df. \<not> reads_infinite pf (get r))"
  unfolding values_dropna reads_infinite_iff by blast

lemma labels_int_series:
  "fst ` set (map (\<lambda>(i, v). (i, int_cell pf v)) (dropna (to_numeric pf (column get df))))
     \<subseteq> fst ` set df"
  by (force simp: dropna_def to_numeric_def column_def)

lemma lookup_int_series:
  assumes "distinct (map fst df)" and "(i, r) \<in> set df"
  shows "map_of (map (\<lambda>(i, v). (i, int_cell pf v)) (dropna (to_numeric pf (column get df)))) i =
         (if numeric_value pf (get r) = Missing then None else Some (coerced pf (get r)))"
  using assms
proof (induction df)
  case Nil
  then show ?case by simp
next
  case (Cons a df)
  obtain j r' where a: "a = (j, r')" by (cases a)
  let ?S = "map (\<lambda>(i, v). (i, int_cell pf v)) (dropna (to_numeric pf (column get df)))"
  have step: "map (\<lambda>(i, v). (i, int_cell pf v)) (dropna (to_numeric pf (column get (a # df)))) =
      (if numeric_value pf (get r') = Missing then ?S else (j, coerced pf (get r')) # ?S)"
    by (simp add: a dropna_def to_numeric_def column_def coerced_def)
  show ?case
  proof (cases "i = j")
    case True
    with Cons.prems a have r: "r' = r" and notin: "i \<notin> fst ` set df"
      by (auto simp: image_iff)
    from notin labels_int_series [of pf get df] have "i \<notin> fst ` set ?S" by blast
    then have "map_of ?S i = None" by (simp add: map_of_eq_None_iff)
    with True r show ?thesis by (simp add: step)
  next
    case False
    with Cons.prems a have "(i, r) \<in> set df" and "distinct (map fst df)" by auto
    with Cons.IH False show ?thesis by (simp add: step)
  qed
qed

lemma coerce_column_eq:
  assumes "distinct (map fst df)"
  shows "coerce_column pf get put df =
     (if \<exists>r \<in> snd ` set df. reads_infinite pf (get r) then Inl IntCastingNaNError
      else Inr (map (\<lambda>(i, r). (i, put (coerced pf (get r)) r)) df))"
proof (cases "\<exists>r \<in> snd ` set df. reads_infinite pf (get r)")
  case True
  then have "\<not> (\<forall>v \<in> snd ` set (dropna (to_numeric pf (column get df))). is_finite v)"
    unfolding finite_dropna by blast
  with True show ?thesis
    by (simp add: coerce_column_def astype_int_eq)
next
  case False
  then have fin: "\<forall>v \<in> snd ` set (dropna (to_numeric pf (column get df))). is_finite v"
    unfolding finite_dropna by blast
  have "assign_column NaN put
      (map (\<lambda>(i, v). (i, int_cell pf v)) (dropna (to_numeric pf (column get df)))) df =
      map (\<lambda>(i, r). (i, put (coerced pf (get r)) r)) df"
    unfolding assign_column_def
  proof (rule map_cong [OF refl])
    fix a assume a: "a \<in> set df"
    obtain i r where ir: "a = (i, r)" by (cases a)
    have "numeric_value pf (get r) = Missing \<Longrightarrow> coerced pf (get r) = NaN"
      by (simp add: coerced_def)
    with lookup_int_series [OF assms, of i r pf get] a ir show
      "(case a of (i, r) \<Rightarrow>
          (i, put (case map_of (map (\<lambda>(i, v). (i, int_cell pf v))
                                  (dropna (to_numeric pf (column get df)))) i of
                     None \<Rightarrow> NaN | Some v \<Rightarrow> v) r)) =
       (case a of (i, r) \<Rightarrow> (i, put (coerced pf (get r)) r))"
      by simp
  qed
  with False fin show ?thesis
    by (simp add: coerce_column_def astype_int_eq)
qed

lemma coerce_column_error: "coerce_column pf get put df = Inl e \<Longrightarrow> e = IntCastingNaNError"
  by (auto simp: coerce_column_def astype_int_eq split: if_splits sum.splits)

lemma coerce_column_raises:
  assumes "(i, r) \<in> set df" and "reads_infinite pf (get r)"
  shows "coerce_column pf get put df = Inl IntCastingNaNError"
proof -
  from assms have "\<exists>r \<in> snd ` set df. reads_infinite pf (get r)" by force
  then have "\<not> (\<forall>v \<in> snd ` set (dropna (to_numeric pf (column get df))). is_finite v)"
    unfolding finite_dropna by blast
  then show ?thesis by (simp add: coerce_column_def astype_int_eq)
qed

lemma coerce_column_labels:
  "coerce_column pf get put df = Inr df' \<Longrightarrow> map fst df' = map fst df"
  by (auto simp: coerce_column_def assign_column_def case_prod_unfold split: sum.splits)

lemma coerce_keys_then:
  fixes df :: "'a play_key_scheme frame"
  assumes "distinct (map fst df)"
  shows "(case coerce_column pf gameId (\<lambda>v r. r\<lparr>gameId := v\<rparr>) df of
            Inl e \<Rightarrow> Inl e
          | Inr df1 \<Rightarrow>
              (case coerce_column pf playId (\<lambda>v r. r\<lparr>playId := v\<rparr>) df1 of
                 Inl e \<Rightarrow> Inl e
               | Inr df2 \<Rightarrow> continue df2)) =
         (if \<exists>r \<in> snd ` set df. reads_infinite pf (gameId r) \<or> reads_infinite pf (playId r)
          then Inl IntCastingNaNError
          else continue (map (\<lambda>(i, r). (i, r\<lparr>gameId := coerced pf (gameId r),
                                               playId := coerced pf (playId r)\<rparr>)) df))"
proof -
  let ?g = "map (\<lambda>(i, r). (i, r\<lparr>gameId := coerced pf (gameId r)\<rparr>)) df"
  have d1: "distinct (map fst ?g)" using assms by (simp only: labels_map_frame)
  have p: "(\<exists>r \<in> snd ` set ?g. reads_infinite pf (playId r)) \<longleftrightarrow>
      (\<exists>r \<in> snd ` set df. reads_infinite pf (playId r))"
    by force
  have m: "map (\<lambda>(i, r). (i, r\<lparr>playId := coerced pf (playId r)\<rparr>)) ?g =
      map (\<lambda>(i, r). (i, r\<lparr>gameId := coerced pf (gameId r), playId := coerced pf (playId r)\<rparr>)) df"
    by (simp add: case_prod_unfold comp_def)
  show ?thesis
    unfolding coerce_column_eq [OF assms]
    by (auto simp: coerce_column_eq [OF d1] p m simp del: map_map)
qed

lemma coerce_ids_then:
  fixes df :: "'a player_key_scheme frame"
  assumes "distinct (map fst df)"
  shows "(case coerce_column pf gameId (\<lambda>v r. r\<lparr>gameId := v\<rparr>) df of
            Inl e \<Rightarrow> Inl e
          | Inr df1 \<Rightarrow>
              (case coerce_column pf playId (\<lambda>v r. r\<lparr>playId := v\<rparr>) df1 of
                 Inl e \<Rightarrow> Inl e
               | Inr df2 \<Rightarrow>
                   (case coerce_column pf nflId (\<lambda>v r. r\<lparr>nflId := v\<rparr>) df2 of
                      Inl e \<Rightarrow> Inl e
                    | Inr df3 \<Rightarrow> continue df3))) =
         (if \<exists>r \<in> snd ` set df. reads_infinite pf (gameId r) \<or> reads_infinite pf (playId r)
                                  \<or> reads_infinite pf (nflId r)
          then Inl IntCastingNaNError
          else continue (map (\<lambda>(i, r). (i, r\<lparr>gameId := coerced pf (gameId r),
                                               playId := coerced pf (playId r),
                                               nflId := coerced pf (nflId r)\<rparr>)) df))"
proof -
  let ?p = "map (\<lambda>(i, r). (i, r\<lparr>gameId := coerced pf (gameId r),
                               playId := coerced pf (playId r)\<rparr>)) df"
  have d2: "distinct (map fst ?p)" using assms by (simp only: labels_map_frame)
  have n: "(\<exists>r \<in> snd ` set ?p. reads_infinite pf (nflId r)) \<longleftrightarrow>
      (\<exists>r \<in> snd ` set df. reads_infinite pf (nflId r))"
    by force
  have m: "map (\<lambda>(i, r). (i, r\<lparr>nflId := coerced pf (nflId r)\<rparr>)) ?p =
      map (\<lambda>(i, r). (i, r\<lparr>gameId := coerced pf (gameId r), playId := coerced pf (playId r),
                            nflId := coerced pf (nflId r)\<rparr>)) df"
    by (simp add: case_prod_unfold comp_def)
  show ?thesis
    unfolding coerce_keys_then [OF assms]
    by (auto simp: coerce_column_eq [OF d2] n m simp del: map_map)
qed

section \<open>Properties of tracking ingestion\<close>

lemma filter_chunk_eq:
  assumes "distinct (map fst chunk)"
  shows "filter_chunk pf valid_nfl_ids w chunk =
     (if \<exists>r \<in> snd ` set chunk. selected valid_nfl_ids r \<and> infinite_id pf r
      then Inl IntCastingNaNError
      else Inr (if filter (\<lambda>(i, r). selected valid_nfl_ids r) chunk \<noteq> []
                then [map (\<lambda>(i, r). (i, with_week w (coerce_ids pf r)))
                        (filter (\<lambda>(i, r). selected valid_nfl_ids r) chunk)]
                else []))"
proof -
  let ?kept = "loc (\<lambda>r. isin valid_nfl_ids (nflId r)
                    \<and> isin [Text ''BEFORE_SNAP'', Text ''SNAP''] (frameType r)) chunk"
  have kept: "?kept = filter (\<lambda>(i, r). selected valid_nfl_ids r) chunk"
    by (simp add: loc_def isin_def selected_def)
  have d: "distinct (map fst ?kept)"
    unfolding kept using assms by (rule distinct_map_filter)
  have bad: "(\<exists>r \<in> snd ` set ?kept. reads_infinite pf (gameId r) \<or> reads_infinite pf (playId r)
                                  \<or> reads_infinite pf (nflId r)) \<longleftrightarrow>
      (\<exists>r \<in> snd ` set chunk. selected valid_nfl_ids r \<and> infinite_id pf r)"
    unfolding kept by (force simp: infinite_id_def)
  have tag: "map (\<lambda>(i, r). (i, with_week w r))
        (map (\<lambda>(i, r). (i, r\<lparr>gameId := coerced pf (gameId r), playId := coerced pf (playId r),
                               nflId := coerced pf (nflId r)\<rparr>)) df) =
      map (\<lambda>(i, r). (i, with_week w (coerce_ids pf r))) df" for df :: "'a tracking_row frame"
    by (simp add: coerce_ids_def case_prod_unfold comp_def)
  show ?thesis
    unfolding filter_chunk_def Let_def coerce_ids_then [OF d] bad
    by (simp add: kept tag del: map_map)
qed

lemma filter_chunks_eq:
  assumes "\<And>c. c \<in> set cs \<Longrightarrow> distinct (map fst c)"
  shows "filter_chunks pf valid_nfl_ids w cs =
     (if \<exists>r \<in> snd ` set (concat cs). selected valid_nfl_ids r \<and> infinite_id pf r
      then Inl IntCastingNaNError
      else Inr (concat (map (\<lambda>c.
             if filter (\<lambda>(i, r). selected valid_nfl_ids r) c \<noteq> []
             then [map (\<lambda>(i, r). (i, with_week w (coerce_ids pf r)))
                     (filter (\<lambda>(i, r). selected valid_nfl_ids r) c)]
             else []) cs)))"
  using assms
proof (induction cs)
  case Nil
  then show ?case by simp
next
  case (Cons c cs)
  then have d: "distinct (map fst c)" and ih: "filter_chunks pf valid_nfl_ids w cs =
     (if \<exists>r \<in> snd ` set (concat cs). selected valid_nfl_ids r \<and> infinite_id pf r
      then Inl IntCastingNaNError
      else Inr (concat (map (\<lambda>c.
             if filter (\<lambda>(i, r). selected valid_nfl_ids r) c \<noteq> []
             then [map (\<lambda>(i, r). (i, with_week w (coerce_ids pf r)))
                     (filter (\<lambda>(i, r). selected valid_nfl_ids r) c)]
             else []) cs)))"
    by simp_all
  show ?case
    by (simp add: filter_chunk_eq [OF d] ih image_Un bex_Un)
qed

lemma rows_of_chunks:
  "concat (map (map snd) (concat (map (\<lambda>c.
             if filter (\<lambda>(i, r). keep r) c \<noteq> []
             then [map (\<lambda>(i, r). (i, change r)) (filter (\<lambda>(i, r). keep r) c)]
             else []) cs))) =
   map change (filter keep (map snd (concat cs)))"
  by (induction cs) (auto simp: rows_filter_frame [symmetric] rows_map_frame simp del: map_map)

lemma filter_week_eq:
  assumes "0 < chunk_size"
  shows "filter_week pf valid_nfl_ids chunk_size w rows =
     (if \<exists>r \<in> set rows. selected valid_nfl_ids r \<and> infinite_id pf r
      then Inl IntCastingNaNError
      else Inr (if filter (selected valid_nfl_ids) rows \<noteq> []
                then [enumerate 0 (map (\<lambda>r. with_week w (coerce_ids pf r))
                                    (filter (selected valid_nfl_ids) rows))]
                else []))"
proof -
  let ?cs = "chunks chunk_size (read_csv rows)"
  let ?wd = "concat (map (\<lambda>c.
             if filter (\<lambda>(i, r). selected valid_nfl_ids r) c \<noteq> []
             then [map (\<lambda>(i, r). (i, with_week w (coerce_ids pf r)))
                     (filter (\<lambda>(i, r). selected valid_nfl_ids r) c)]
             else []) ?cs)"
  have d: "distinct (map fst c)" if "c \<in> set ?cs" for c
    using distinct_labels_chunks [OF distinct_labels_read_csv that] .
  have all: "concat ?cs = read_csv rows" using assms by (rule concat_chunks)
  have rows: "snd ` set (read_csv rows) = set rows"
    by (metis list.set_map rows_read_csv)
  have wd_rows: "concat (map (map snd) ?wd) =
      map (\<lambda>r. with_week w (coerce_ids pf r)) (filter (selected valid_nfl_ids) rows)"
    unfolding rows_of_chunks all rows_read_csv ..
  have empty: "?wd = [] \<longleftrightarrow> filter (selected valid_nfl_ids) rows = []"
  proof
    assume "?wd = []"
    with wd_rows show "filter (selected valid_nfl_ids) rows = []" by simp
  next
    assume none: "filter (selected valid_nfl_ids) rows = []"
    have "filter (\<lambda>(i, r). selected valid_nfl_ids r) c = []" if c: "c \<in> set ?cs" for c
    proof -
      from c have "set c \<subseteq> set (concat ?cs)" by auto
      then have "snd ` set c \<subseteq> set rows" unfolding all using rows by blast
      with none show ?thesis by (auto simp: filter_empty_conv)
    qed
    then show "?wd = []" by simp
  qed
  have fc: "filter_chunks pf valid_nfl_ids w ?cs =
     (if \<exists>r \<in> set rows. selected valid_nfl_ids r \<and> infinite_id pf r
      then Inl IntCastingNaNError else Inr ?wd)"
  proof -
    have "filter_chunks pf valid_nfl_ids w ?cs =
     (if \<exists>r \<in> snd ` set (concat ?cs). selected valid_nfl_ids r \<and> infinite_id pf r
      then Inl IntCastingNaNError else Inr ?wd)"
      by (rule filter_chunks_eq) (rule d)
    then show ?thesis by (simp only: all rows)
  qed
  have week: "filter_week pf valid_nfl_ids chunk_size w rows =
     (case filter_chunks pf valid_nfl_ids w ?cs of
        Inl e \<Rightarrow> Inl e
      | Inr week_data \<Rightarrow> Inr (if week_data \<noteq> [] then [pd_concat week_data] else []))"
    using assms by (simp add: filter_week_def read_csv_chunks_def)
  show ?thesis
  proof (cases "\<exists>r \<in> set rows. selected valid_nfl_ids r \<and> infinite_id pf r")
    case True
    then show ?thesis unfolding week fc by simp
  next
    case False
    show ?thesis
    proof (cases "?wd = []")
      case True
      with False empty show ?thesis unfolding week fc by simp
    next
      case nonempty: False
      with empty have "filter (selected valid_nfl_ids) rows \<noteq> []" by simp
      with False nonempty show ?thesis
        unfolding week fc by (simp add: pd_concat_def wd_rows)
    qed
  qed
qed

lemma filter_weeks_eq:
  assumes "0 < chunk_size"
  shows "filter_weeks pf valid_nfl_ids chunk_size weeks =
     (if \<exists>(w, rows) \<in> set weeks. \<exists>r \<in> set rows. selected valid_nfl_ids r \<and> infinite_id pf r
      then Inl IntCastingNaNError
      else Inr (concat (map (\<lambda>(w, rows).
             if filter (selected valid_nfl_ids) rows \<noteq> []
             then [enumerate 0 (map (\<lambda>r. with_week w (coerce_ids pf r))
                                 (filter (selected valid_nfl_ids) rows))]
             else []) weeks)))"
proof (induction weeks)
  case Nil
  then show ?case by simp
next
  case (Cons a weeks)
  obtain w rows where a: "a = (w, rows)" by (cases a)
  show ?case
    unfolding a by (simp add: filter_week_eq [OF assms] Cons.IH)
qed

lemma rows_of_weeks:
  "concat (map (map snd) (concat (map (\<lambda>(w, rows).
             if filter keep rows \<noteq> []
             then [enumerate 0 (map (change w) (filter keep rows))]
             else []) weeks))) =
   concat (map (\<lambda>(w, rows). map (change w) (filter keep rows)) weeks)"
  by (induction weeks) auto

lemma tracking_ingest_rows:
  assumes "0 < chunk_size"
    and "\<And>w rows r. (w, rows) \<in> set weeks \<Longrightarrow> r \<in> set rows \<Longrightarrow> selected valid_nfl_ids r \<Longrightarrow>
           \<not> infinite_id pf r"
  shows "\<exists>out. filter_tracking_data pf valid_nfl_ids weeks chunk_size = Inr out
           \<and> rows_of out =
             concat (map (\<lambda>(w, rows). map (\<lambda>r. with_week w (coerce_ids pf r))
                                       (filter (selected valid_nfl_ids) rows)) weeks)"
proof -
  let ?all = "concat (map (\<lambda>(w, rows).
             if filter (selected valid_nfl_ids) rows \<noteq> []
             then [enumerate 0 (map (\<lambda>r. with_week w (coerce_ids pf r))
                                 (filter (selected valid_nfl_ids) rows))]
             else []) weeks)"
  from assms(2) have "\<not> (\<exists>(w, rows) \<in> set weeks. \<exists>r \<in> set rows.
      selected valid_nfl_ids r \<and> infinite_id pf r)"
    by blast
  then have weeks: "filter_weeks pf valid_nfl_ids chunk_size weeks = Inr ?all"
    unfolding filter_weeks_eq [OF assms(1)] by (simp only: if_False)
  have rows: "concat (map (map snd) ?all) =
      concat (map (\<lambda>(w, rows). map (\<lambda>r. with_week w (coerce_ids pf r))
                                       (filter (selected valid_nfl_ids) rows)) weeks)"
    by (rule rows_of_weeks)
  show ?thesis
  proof (cases "?all = []")
    case True
    with rows have "concat (map (\<lambda>(w, rows). map (\<lambda>r. with_week w (coerce_ids pf r))
                                       (filter (selected valid_nfl_ids) rows)) weeks) = []"
      by simp
    with True show ?thesis
      unfolding filter_tracking_data_def weeks by simp
  next
    case False
    with rows show ?thesis
      unfolding filter_tracking_data_def weeks by (simp add: pd_concat_def)
  qed
qed

text \<open>
  C6 asks that a row survive tracking ingestion exactly when its \<^verbatim>\<open>nflId\<close> is valid and
  its \<^verbatim>\<open>frameType\<close> is \<^verbatim>\<open>BEFORE_SNAP\<close> or \<^verbatim>\<open>SNAP\<close>. The code does not do that on
  every file: when a row that passes this test has an identifier (\<^verbatim>\<open>gameId\<close>,
  \<^verbatim>\<open>playId\<close> or \<^verbatim>\<open>nflId\<close>) that reads as an infinity, the conversion to \<^verbatim>\<open>int\<close>
  raises \<^verbatim>\<open>IntCastingNaNError\<close> and no row of any week survives.
\<close>

theorem infinite_identifier_aborts_tracking_ingest:
  assumes "0 < chunk_size" and "(w, rows) \<in> set weeks" and "r \<in> set rows"
    and "selected valid_nfl_ids r" and "infinite_id pf r"
  shows "filter_tracking_data pf valid_nfl_ids weeks chunk_size = Inl IntCastingNaNError"
proof -
  from assms(2-5) have "\<exists>(w, rows) \<in> set weeks. \<exists>r \<in> set rows.
      selected valid_nfl_ids r \<and> infinite_id pf r"
    by blast
  then have "filter_weeks pf valid_nfl_ids chunk_size weeks = Inl IntCastingNaNError"
    unfolding filter_weeks_eq [OF assms(1)] by (simp only: if_True)
  then show ?thesis by (simp add: filter_tracking_data_def)
qed

theorem infinite_identifier_aborts_tracking_ingest_witness:
  "filter_tracking_data example_platform [Number 7]
     [(1, [\<lparr>gameId = Infinity True, playId = Number 10, nflId = Number 7, frameId = Number 1,
             frameType = Text ''SNAP'', x = (0::real), y = (0::real)\<rparr>])] 50000 =
   Inl IntCastingNaNError"
proof -
  let ?r = "\<lparr>gameId = Infinity True, playId = Number 10, nflId = Number 7, frameId = Number 1,
             frameType = Text ''SNAP'', x = (0::real), y = (0::real)\<rparr>"
  have size: "0 < (50000::nat)" by simp
  have week: "(1, [?r]) \<in> set [(1::int, [?r])]" by simp
  have row: "?r \<in> set [?r]" by simp
  have sel: "selected [Number 7] ?r" by (simp add: selected_def)
  have inf: "infinite_id example_platform ?r"
    by (simp add: infinite_id_def reads_infinite_def)
  from infinite_identifier_aborts_tracking_ingest [OF size week row sel inf] show ?thesis .
qed

section \<open>Properties of the route-record filter\<close>

lemma filter_player_play_data_eq:
  "filter_player_play_data pf player_plays =
     (if \<exists>r \<in> set player_plays. infinite_id pf r then Inl IntCastingNaNError
      else Inr (map (\<lambda>(i, r). (i, \<lparr>gameId = coerced pf (gameId r), playId = coerced pf (playId r),
                                      nflId = coerced pf (nflId r), routeRan = routeRan r\<rparr>))
                 (filter (\<lambda>(i, r). routeRan r \<noteq> NaN) (enumerate 0 player_plays))))"
proof -
  have rows: "snd ` set (read_csv player_plays) = set player_plays"
    by (metis list.set_map rows_read_csv)
  have bad: "(\<exists>r \<in> snd ` set (read_csv player_plays).
        reads_infinite pf (gameId r) \<or> reads_infinite pf (playId r) \<or> reads_infinite pf (nflId r))
      \<longleftrightarrow> (\<exists>r \<in> set player_plays. infinite_id pf r)"
    unfolding rows by (simp add: infinite_id_def)
  show ?thesis
    unfolding filter_player_play_data_def Let_def
      coerce_ids_then [OF distinct_labels_read_csv] bad
    by (simp add: loc_def notnull_def filter_map comp_def case_prod_unfold read_csv_def)
qed

lemma route_filter_rows:
  assumes "\<And>r. r \<in> set player_plays \<Longrightarrow> \<not> infinite_id pf r"
  shows "\<exists>out. filter_player_play_data pf player_plays = Inr out
     \<and> (\<forall>i. i \<in> fst ` set out \<longleftrightarrow>
            i < length player_plays \<and> routeRan (player_plays ! i) \<noteq> NaN)
     \<and> (\<forall>(i, r) \<in> set out.
            r = \<lparr>gameId = coerced pf (gameId (player_plays ! i)),
                 playId = coerced pf (playId (player_plays ! i)),
                 nflId = coerced pf (nflId (player_plays ! i)),
                 routeRan = routeRan (player_plays ! i)\<rparr>)
     \<and> distinct (map fst out)"
proof -
  let ?project = "\<lambda>r. \<lparr>gameId = coerced pf (gameId r), playId = coerced pf (playId r),
                          nflId = coerced pf (nflId r), routeRan = routeRan r\<rparr>"
  let ?kept = "filter (\<lambda>(i, r). routeRan r \<noteq> NaN) (enumerate 0 player_plays)"
  let ?out = "map (\<lambda>(i, r). (i, ?project r)) ?kept"
  from assms have "\<not> (\<exists>r \<in> set player_plays. infinite_id pf r)" by blast
  then have out: "filter_player_play_data pf player_plays = Inr ?out"
    unfolding filter_player_play_data_eq by (simp only: if_False)
  have kept: "(i, r) \<in> set ?kept \<longleftrightarrow>
      i < length player_plays \<and> r = player_plays ! i \<and> routeRan r \<noteq> NaN" for i r
    by (auto simp: in_set_enumerate_eq)
  have labels: "map fst ?out = map fst ?kept" by (rule labels_map_frame)
  have a: "i \<in> fst ` set ?out \<longleftrightarrow>
          i < length player_plays \<and> routeRan (player_plays ! i) \<noteq> NaN" for i
  proof -
    have "i \<in> fst ` set ?out \<longleftrightarrow> i \<in> set (map fst ?out)"
      by (simp only: set_map)
    also have "\<dots> \<longleftrightarrow> i \<in> set (map fst ?kept)"
      by (simp only: labels)
    also have "\<dots> \<longleftrightarrow> (\<exists>r. (i, r) \<in> set ?kept)" by force
    also have "\<dots> \<longleftrightarrow> i < length player_plays \<and> routeRan (player_plays ! i) \<noteq> NaN"
      unfolding kept by simp
    finally show ?thesis .
  qed
  have b: "\<forall>(i, r) \<in> set ?out. r = ?project (player_plays ! i)"
  proof (rule ballI)
    fix x assume x: "x \<in> set ?out"
    then obtain i r where "(i, r) \<in> set ?kept" and "x = (i, ?project r)" by auto
    with kept [of i r] show "case x of (i, r) \<Rightarrow> r = ?project (player_plays ! i)" by simp
  qed
  have "distinct (map fst (enumerate 0 player_plays))" by simp
  then have "distinct (map fst ?kept)" by (rule distinct_map_filter)
  then have c: "distinct (map fst ?out)" unfolding labels .
  from out a b c show ?thesis by blast
qed

text \<open>
  C9 asks that a player-play row be retained exactly when its \<^verbatim>\<open>routeRan\<close> is not
  missing. The code does not do that on every file: when any row of the file, retained or
  not, has an identifier that reads as an infinity, the conversion to \<^verbatim>\<open>int\<close> raises
  \<^verbatim>\<open>IntCastingNaNError\<close> and no row is retained.
\<close>

theorem infinite_identifier_aborts_route_filter:
  assumes "r \<in> set player_plays" and "infinite_id pf r"
  shows "filter_player_play_data pf player_plays = Inl IntCastingNaNError"
proof -
  from assms have "\<exists>r \<in> set player_plays. infinite_id pf r" by blast
  then show ?thesis unfolding filter_player_play_data_eq by (simp only: if_True)
qed

theorem infinite_identifier_aborts_route_filter_witness:
  "filter_player_play_data example_platform
     [\<lparr>gameId = Infinity True, playId = Number 10, nflId = Number 1, routeRan = NaN\<rparr>,
      \<lparr>gameId = Number 100, playId = Number 10, nflId = Number 2, routeRan = Text ''GO''\<rparr>] =
   Inl IntCastingNaNError"
proof -
  let ?bad = "\<lparr>gameId = Infinity True, playId = Number 10, nflId = Number 1, routeRan = NaN\<rparr>"
  let ?good = "\<lparr>gameId = Number 100, playId = Number 10, nflId = Number 2,
                 routeRan = Text ''GO''\<rparr>"
  have row: "?bad \<in> set [?bad, ?good]" by simp
  have inf: "infinite_id example_platform ?bad"
    by (simp add: infinite_id_def reads_infinite_def)
  from infinite_identifier_aborts_route_filter [OF row inf] show ?thesis .
qed

section \<open>Properties of merging\<close>

lemma partners_rows:
  "map (\<lambda>(j, r). combine l r) (filter (\<lambda>(j, r). right_on r = k) right) =
   map (combine l) (filter (\<lambda>r. right_on r = k) (map snd right))"
  by (induction right) auto

lemma merge_inner_eq:
  "merge_inner left_on right_on combine (DataFrame rows) right =
     Inr (DataFrame (enumerate 0 (concat (map
       (\<lambda>l. map (combine l) (filter (\<lambda>r. right_on r = left_on l) (map snd right)))
       (map snd rows)))))"
proof -
  have "concat (map (\<lambda>(i, l).
            map (\<lambda>(j, r). combine l r) (filter (\<lambda>(j, r). right_on r = left_on l) right)) rows) =
      concat (map (\<lambda>l. map (combine l) (filter (\<lambda>r. right_on r = left_on l) (map snd right)))
        (map snd rows))"
    unfolding partners_rows by (induction rows) auto
  then show ?thesis by (simp add: merge_inner_def)
qed

lemma merge_left_eq:
  "merge_left left_on right_on combine unmatched (DataFrame rows) right =
     Inr (DataFrame (enumerate 0 (concat (map (\<lambda>l.
        (case filter (\<lambda>r. right_on r = left_on l) (map snd right) of
           [] \<Rightarrow> [unmatched l]
         | partners \<Rightarrow> map (combine l) partners)) (map snd rows)))))"
proof -
  have one: "(case filter (\<lambda>(j, r). right_on r = left_on l) right of
          [] \<Rightarrow> [unmatched l]
        | partners \<Rightarrow> map (\<lambda>(j, r). combine l r) partners) =
      (case filter (\<lambda>r. right_on r = left_on l) (map snd right) of
           [] \<Rightarrow> [unmatched l]
         | partners \<Rightarrow> map (combine l) partners)" for l
  proof -
    let ?L = "filter (\<lambda>(j, r). right_on r = left_on l) right"
    let ?R = "filter (\<lambda>r. right_on r = left_on l) (map snd right)"
    have r: "map snd ?L = ?R" by (rule rows_filter_frame)
    have m: "map (\<lambda>(j, r). combine l r) ?L = map (combine l) ?R" by (rule partners_rows)
    show ?thesis
    proof (cases ?L)
      case Nil
      with r have "?R = []" by simp
      with Nil show ?thesis by simp
    next
      case (Cons a as)
      with r obtain b bs where R: "?R = b # bs" by (cases ?R) auto
      from m show ?thesis unfolding Cons R by simp
    qed
  qed
  have "concat (map (\<lambda>(i, l).
            (case filter (\<lambda>(j, r). right_on r = left_on l) right of
               [] \<Rightarrow> [unmatched l]
             | partners \<Rightarrow> map (\<lambda>(j, r). combine l r) partners)) rows) =
      concat (map (\<lambda>l.
        (case filter (\<lambda>r. right_on r = left_on l) (map snd right) of
           [] \<Rightarrow> [unmatched l]
         | partners \<Rightarrow> map (combine l) partners)) (map snd rows))"
    unfolding one by (induction rows) (auto split: list.splits)
  then show ?thesis by (simp add: merge_left_def)
qed

lemma merge_of_no_columns:
  "merge_inner left_on right_on combine EmptyDataFrame right = Inl KeyError"
  "merge_left left_on right_on combine unmatched EmptyDataFrame right = Inl KeyError"
  by (simp_all add: merge_inner_def merge_left_def)

section \<open>Properties of the pass-play filter\<close>

lemma normalize_isDropback_TRUE:
  "normalize_isDropback v = ''TRUE'' \<longleftrightarrow>
     v = Flag True \<or> (\<exists>t. v = FlagText t \<and> str_upper t = ''TRUE'')"
proof (cases v)
  case (Flag b)
  then show ?thesis
    by (cases b) (simp_all add: normalize_isDropback_def str_upper_def upper_char_def)
next
  case (FlagText t)
  then show ?thesis by (simp add: normalize_isDropback_def)
next
  case FlagNaN
  then show ?thesis by (simp add: normalize_isDropback_def str_upper_def upper_char_def)
qed

lemma filter_for_pass_plays_eq:
  "filter_for_pass_plays pf plays tracking_data =
     (if \<exists>p \<in> set plays. is_pass_play p \<and> infinite_key pf p then Inl IntCastingNaNError
      else (case tracking_data of
              EmptyDataFrame \<Rightarrow> Inl KeyError
            | DataFrame rows \<Rightarrow>
                Inr (DataFrame (enumerate 0 (concat (map (\<lambda>t. map (\<lambda>p. t)
                  (filter (\<lambda>p. is_pass_play p
                             \<and> (coerced pf (gameId p), coerced pf (playId p)) = (gameId t, playId t))
                     plays)) (map snd rows)))))))"
proof -
  let ?plays_df = "assign_column FlagNaN (\<lambda>v r. r\<lparr>isDropback := v\<rparr>)
              (column (\<lambda>r. FlagText (normalize_isDropback (isDropback r))) (read_csv plays))
              (read_csv plays)"
  let ?picked = "loc (\<lambda>r. isDropback r = FlagText ''TRUE'') ?plays_df"
  let ?ids = "map (\<lambda>(i, r). (i, \<lparr>gameId = gameId r, playId = playId r\<rparr>)) ?picked"
  let ?coerced = "map (\<lambda>(i, r). (i, r\<lparr>gameId := coerced pf (gameId r),
                                         playId := coerced pf (playId r)\<rparr>)) ?ids"
  have plays_df: "?plays_df =
      map (\<lambda>(i, r). (i, r\<lparr>isDropback := FlagText (normalize_isDropback (isDropback r))\<rparr>))
        (read_csv plays)"
    by (rule assign_own_column [OF distinct_labels_read_csv])
  have "map fst ?plays_df = map fst (read_csv plays)"
    unfolding plays_df by (rule labels_map_frame)
  then have "distinct (map fst ?plays_df)" using distinct_labels_read_csv [of plays] by simp
  then have "distinct (map fst ?picked)" unfolding loc_def by (rule labels_filter_frame)
  then have d: "distinct (map fst ?ids)" by (simp only: labels_map_frame)
  have "map snd ?plays_df =
      map (\<lambda>r. r\<lparr>isDropback := FlagText (normalize_isDropback (isDropback r))\<rparr>) plays"
    unfolding plays_df by (simp only: rows_map_frame rows_read_csv)
  then have "map snd ?picked =
      filter (\<lambda>r. isDropback r = FlagText ''TRUE'')
        (map (\<lambda>r. r\<lparr>isDropback := FlagText (normalize_isDropback (isDropback r))\<rparr>) plays)"
    unfolding loc_def by (simp only: rows_filter_frame)
  then have "map snd ?ids = map (\<lambda>r. \<lparr>gameId = gameId r, playId = playId r\<rparr>)
      (filter (\<lambda>r. isDropback r = FlagText ''TRUE'')
        (map (\<lambda>r. r\<lparr>isDropback := FlagText (normalize_isDropback (isDropback r))\<rparr>) plays))"
    by (simp only: rows_map_frame)
  also have "\<dots> = map (\<lambda>r. \<lparr>gameId = gameId r, playId = playId r\<rparr>) (filter is_pass_play plays)"
    by (simp add: filter_map comp_def is_pass_play_def [abs_def])
  finally have ids: "map snd ?ids =
      map (\<lambda>r. \<lparr>gameId = gameId r, playId = playId r\<rparr>) (filter is_pass_play plays)" .
  have "snd ` set ?ids = set (map snd ?ids)" by (simp only: set_map)
  then have members: "snd ` set ?ids =
      (\<lambda>r. \<lparr>gameId = gameId r, playId = playId r\<rparr>) ` {p \<in> set plays. is_pass_play p}"
    unfolding ids by simp
  have bad: "(\<exists>r \<in> snd ` set ?ids. reads_infinite pf (gameId r) \<or> reads_infinite pf (playId r))
      \<longleftrightarrow> (\<exists>p \<in> set plays. is_pass_play p \<and> infinite_key pf p)"
    unfolding members by (auto simp: infinite_key_def)
  have "map snd ?coerced =
      map (\<lambda>r. r\<lparr>gameId := coerced pf (gameId r), playId := coerced pf (playId r)\<rparr>)
        (map snd ?ids)"
    by (rule rows_map_frame)
  then have coerced: "map snd ?coerced =
      map (\<lambda>p. \<lparr>gameId = coerced pf (gameId p), playId = coerced pf (playId p)\<rparr>)
        (filter is_pass_play plays)"
    unfolding ids by (simp add: comp_def)
  have merged: "merge_inner (\<lambda>r. (gameId r, playId r)) (\<lambda>r. (gameId r, playId r)) (\<lambda>l r. l)
        tracking_data ?coerced =
      (case tracking_data of
              EmptyDataFrame \<Rightarrow> Inl KeyError
            | DataFrame rows \<Rightarrow>
                Inr (DataFrame (enumerate 0 (concat (map (\<lambda>t. map (\<lambda>p. t)
                  (filter (\<lambda>p. is_pass_play p
                             \<and> (coerced pf (gameId p), coerced pf (playId p)) = (gameId t, playId t))
                     plays)) (map snd rows))))))"
  proof (cases tracking_data)
    case EmptyDataFrame
    then show ?thesis by (simp add: merge_of_no_columns)
  next
    case (DataFrame rows)
    show ?thesis
      unfolding DataFrame merge_inner_eq coerced
      by (simp add: filter_map comp_def conj_commute)
  qed
  show ?thesis
    unfolding filter_for_pass_plays_def Let_def coerce_keys_then [OF d] bad merged ..
qed

lemma finite_key_not_infinite: "finite_key pf p \<Longrightarrow> \<not> infinite_key pf p"
proof -
  have "is_finite (numeric_value pf c) \<Longrightarrow> \<not> reads_infinite pf c" for c
    by (cases "numeric_value pf c") (simp_all add: reads_infinite_def)
  then show "finite_key pf p \<Longrightarrow> \<not> infinite_key pf p"
    by (auto simp: finite_key_def infinite_key_def)
qed

lemma rows_enumerate: "snd ` set (enumerate n xs) = set xs"
proof -
  have "snd ` set (enumerate n xs) = set (map snd (enumerate n xs))" by (simp only: set_map)
  then show ?thesis by simp
qed

lemma member_repeated:
  "t \<in> set (concat (map (\<lambda>l. map (\<lambda>p. l) (partners l)) ls)) \<longleftrightarrow>
     t \<in> set ls \<and> partners t \<noteq> []"
proof -
  have one: "t \<in> set (map (\<lambda>p. l) (partners l)) \<longleftrightarrow> t = l \<and> partners t \<noteq> []" for l
    by (cases "partners l") auto
  have "t \<in> set (concat (map (\<lambda>l. map (\<lambda>p. l) (partners l)) ls)) \<longleftrightarrow>
      (\<exists>l \<in> set ls. t \<in> set (map (\<lambda>p. l) (partners l)))"
    by auto
  also have "\<dots> \<longleftrightarrow> (\<exists>l \<in> set ls. t = l \<and> partners t \<noteq> [])"
    unfolding one ..
  also have "\<dots> \<longleftrightarrow> t \<in> set ls \<and> partners t \<noteq> []" by blast
  finally show ?thesis .
qed

lemma str_upper_examples:
  "str_upper ''true'' = ''TRUE''" "str_upper ''yes'' = ''YES''"
  by (simp_all add: str_upper_def upper_char_def) code_simp+

text \<open>
  C5 says that every other value of \<^verbatim>\<open>isDropback\<close> is normalized to \<^verbatim>\<open>FALSE\<close> and that
  every (gameId, playId) pair of the output is a pair of the play table with a true
  \<^verbatim>\<open>isDropback\<close>. Neither holds as stated. A text is upper-cased, not replaced: \<^verbatim>\<open>yes\<close>
  becomes \<^verbatim>\<open>YES\<close>. The keys of the pass plays are converted to integers before the join:
  the play with \<^verbatim>\<open>gameId\<close> 100.9 and \<^verbatim>\<open>playId\<close> 10 keeps the tracking rows of the pair
  (100, 10), which is the pair of no row of the play table.
\<close>

theorem pass_play_filter_counterexample:
  "filter_for_pass_plays example_platform
     [\<lparr>gameId = Number (1009 / 10), playId = Number 10, contextual = missing_context,
       isDropback = Flag True\<rparr>]
     (DataFrame [(0, \<lparr>gameId = Number 100, playId = Number 10\<rparr>)]) =
     Inr (DataFrame [(0, \<lparr>gameId = Number 100, playId = Number 10\<rparr>)])
   \<and> (Number 100, Number 10) \<notin>
       (\<lambda>p. (gameId p, playId p)) `
         set [\<lparr>gameId = Number (1009 / 10), playId = Number 10, contextual = missing_context,
               isDropback = Flag True\<rparr>]
   \<and> normalize_isDropback (FlagText ''yes'') = ''YES''
   \<and> normalize_isDropback (FlagText ''yes'') \<noteq> ''FALSE''"
proof -
  let ?play = "\<lparr>gameId = Number (1009 / 10), playId = Number 10, contextual = missing_context,
       isDropback = Flag True\<rparr>"
  have floor: "\<lfloor>1009 / 10 :: real\<rfloor> = 100" by linarith
  have c: "coerced example_platform (Number (1009 / 10)) = Number 100"
    "coerced example_platform (Number 10) = Number 10"
    by (simp_all add: coerced_def int64_of_def truncate_real_def floor)
  have pass: "is_pass_play ?play"
    by (simp add: is_pass_play_def normalize_isDropback_TRUE)
  have fin: "\<not> infinite_key example_platform ?play"
    by (simp add: infinite_key_def reads_infinite_def)
  have a: "filter_for_pass_plays example_platform [?play]
     (DataFrame [(0, \<lparr>gameId = Number 100, playId = Number 10\<rparr>)]) =
     Inr (DataFrame [(0, \<lparr>gameId = Number 100, playId = Number 10\<rparr>)])"
    unfolding filter_for_pass_plays_eq by (simp add: pass fin c)
  have b: "(Number 100, Number 10) \<notin> (\<lambda>p. (gameId p, playId p)) ` set [?play]"
    by simp
  have n: "normalize_isDropback (FlagText ''yes'') = ''YES''"
    by (simp add: normalize_isDropback_def str_upper_examples)
  then have m: "normalize_isDropback (FlagText ''yes'') \<noteq> ''FALSE''" by simp
  from a b n m show ?thesis by (intro conjI)
qed

text \<open>
  C5, amended. The normalization sends the booleans to \<^verbatim>\<open>TRUE\<close> and \<^verbatim>\<open>FALSE\<close>, a missing
  value to \<^verbatim>\<open>FALSE\<close> and a text to its upper case, so a play counts as a pass play exactly
  when its \<^verbatim>\<open>isDropback\<close> is the boolean true or a text equal to \<^verbatim>\<open>TRUE\<close> up to case.
  When the tracking table has integer key columns and the two key cells of every pass
  play read as finite numbers, the filter returns a table, and a row is in it exactly
  when it is a row of the tracking table whose (gameId, playId) is the key of a pass play
  converted to integers (truncated towards zero).
\<close>

theorem pass_play_filter_joins_on_integer_keys:
  assumes "\<And>p. p \<in> set plays \<Longrightarrow> is_pass_play p \<Longrightarrow> finite_key pf p"
    and "\<And>t. t \<in> snd ` set tracking \<Longrightarrow> integer_key t"
  shows "normalize_isDropback (Flag True) = ''TRUE''
   \<and> normalize_isDropback (Flag False) = ''FALSE''
   \<and> normalize_isDropback FlagNaN = ''FALSE''
   \<and> (\<forall>s. normalize_isDropback (FlagText s) = str_upper s)
   \<and> (\<forall>p :: play_row. is_pass_play p \<longleftrightarrow>
          isDropback p = Flag True \<or> (\<exists>s. isDropback p = FlagText s \<and> str_upper s = ''TRUE''))
   \<and> (\<exists>out. filter_for_pass_plays pf plays (DataFrame tracking) = Inr (DataFrame out)
         \<and> (\<forall>t. t \<in> snd ` set out \<longleftrightarrow>
                t \<in> snd ` set tracking
                \<and> (\<exists>p \<in> set plays. is_pass_play p
                      \<and> gameId t = Number (of_int (int64_of pf (the_number pf (gameId p))))
                      \<and> playId t = Number (of_int (int64_of pf (the_number pf (playId p)))))))"
proof -
  let ?partners = "\<lambda>t. filter (\<lambda>p. is_pass_play p
      \<and> (coerced pf (gameId p), coerced pf (playId p)) = (gameId t, playId t)) plays"
  let ?out = "enumerate 0 (concat (map (\<lambda>t. map (\<lambda>p. t) (?partners t)) (map snd tracking)))"
  from assms(1) have "\<not> (\<exists>p \<in> set plays. is_pass_play p \<and> infinite_key pf p)"
    using finite_key_not_infinite by blast
  then have out: "filter_for_pass_plays pf plays (DataFrame tracking) = Inr (DataFrame ?out)"
    unfolding filter_for_pass_plays_eq by simp
  have int: "coerced pf c = Number (of_int (int64_of pf (the_number pf c)))"
    if "is_finite (numeric_value pf c)" for c
    using that by (cases "numeric_value pf c") (simp_all add: coerced_def the_number_def)
  have key: "(coerced pf (gameId p), coerced pf (playId p)) = (gameId t, playId t) \<longleftrightarrow>
      gameId t = Number (of_int (int64_of pf (the_number pf (gameId p))))
      \<and> playId t = Number (of_int (int64_of pf (the_number pf (playId p))))"
    if "p \<in> set plays" and "is_pass_play p" for p and t :: "'a play_key_scheme"
  proof -
    from assms(1) [OF that] have "is_finite (numeric_value pf (gameId p))"
      and "is_finite (numeric_value pf (playId p))"
      by (simp_all add: finite_key_def)
    then show ?thesis by (auto simp: int)
  qed
  have join: "t \<in> snd ` set ?out \<longleftrightarrow>
      t \<in> snd ` set tracking
      \<and> (\<exists>p \<in> set plays. is_pass_play p
            \<and> gameId t = Number (of_int (int64_of pf (the_number pf (gameId p))))
            \<and> playId t = Number (of_int (int64_of pf (the_number pf (playId p)))))" for t
  proof -
    have "t \<in> snd ` set ?out \<longleftrightarrow> t \<in> set (map snd tracking) \<and> ?partners t \<noteq> []"
      unfolding rows_enumerate by (rule member_repeated)
    also have "t \<in> set (map snd tracking) \<longleftrightarrow> t \<in> snd ` set tracking"
      by (simp only: set_map)
    also have "?partners t \<noteq> [] \<longleftrightarrow> (\<exists>p \<in> set plays. is_pass_play p
        \<and> (coerced pf (gameId p), coerced pf (playId p)) = (gameId t, playId t))"
      by (auto simp: filter_empty_conv)
    also have "\<dots> \<longleftrightarrow> (\<exists>p \<in> set plays. is_pass_play p
            \<and> gameId t = Number (of_int (int64_of pf (the_number pf (gameId p))))
            \<and> playId t = Number (of_int (int64_of pf (the_number pf (playId p)))))"
      using key by blast
    finally show ?thesis .
  qed
  have n: "normalize_isDropback (Flag True) = ''TRUE''"
    "normalize_isDropback (Flag False) = ''FALSE''"
    "normalize_isDropback FlagNaN = ''FALSE''"
    "\<forall>s. normalize_isDropback (FlagText s) = str_upper s"
    by (simp_all add: normalize_isDropback_def str_upper_def upper_char_def)
  have p: "\<forall>p :: play_row. is_pass_play p \<longleftrightarrow>
          isDropback p = Flag True \<or> (\<exists>s. isDropback p = FlagText s \<and> str_upper s = ''TRUE'')"
    unfolding is_pass_play_def normalize_isDropback_TRUE by simp
  from out join have "\<exists>out. filter_for_pass_plays pf plays (DataFrame tracking) = Inr (DataFrame out)
         \<and> (\<forall>t. t \<in> snd ` set out \<longleftrightarrow>
                t \<in> snd ` set tracking
                \<and> (\<exists>p \<in> set plays. is_pass_play p
                      \<and> gameId t = Number (of_int (int64_of pf (the_number pf (gameId p))))
                      \<and> playId t = Number (of_int (int64_of pf (the_number pf (playId p))))))"
    by blast
  with n p show ?thesis by (intro conjI)
qed

theorem pass_play_filter_joins_on_integer_keys_witness:
  "\<exists>out. filter_for_pass_plays example_platform
       [\<lparr>gameId = Number 100, playId = Number 10, contextual = missing_context,
         isDropback = Flag False\<rparr>,
        \<lparr>gameId = Number (2003 / 20), playId = Number 12, contextual = missing_context,
         isDropback = FlagText ''true''\<rparr>]
       (DataFrame [(0, \<lparr>gameId = Number 100, playId = Number 10\<rparr>),
                   (1, \<lparr>gameId = Number 100, playId = Number 12\<rparr>)]) = Inr (DataFrame out)
     \<and> \<lparr>gameId = Number 100, playId = Number 12\<rparr> \<in> snd ` set out
     \<and> \<lparr>gameId = Number 100, playId = Number 10\<rparr> \<notin> snd ` set out"
proof -
  let ?run = "\<lparr>gameId = Number 100, playId = Number 10, contextual = missing_context,
         isDropback = Flag False\<rparr>"
  let ?pass = "\<lparr>gameId = Number (2003 / 20), playId = Number 12, contextual = missing_context,
         isDropback = FlagText ''true''\<rparr>"
  let ?tracking = "[(0::nat, \<lparr>gameId = Number 100, playId = Number 10\<rparr>),
                   (1, \<lparr>gameId = Number 100, playId = Number 12\<rparr>)]"
  have pass: "is_pass_play ?pass" "\<not> is_pass_play ?run"
    by (simp_all add: is_pass_play_def normalize_isDropback_TRUE str_upper_examples)
  have h1: "\<And>p. p \<in> set [?run, ?pass] \<Longrightarrow> is_pass_play p \<Longrightarrow> finite_key example_platform p"
    using pass by (auto simp: finite_key_def)
  have h2: "\<And>t. t \<in> snd ` set ?tracking \<Longrightarrow> integer_key t"
    by (auto simp: integer_key_def)
  have floor: "\<lfloor>2003 / 20 :: real\<rfloor> = 100" by linarith
  have k: "int64_of example_platform (the_number example_platform (Number (2003 / 20))) = 100"
    "int64_of example_platform (the_number example_platform (Number 12)) = 12"
    by (simp_all add: the_number_def int64_of_def truncate_real_def floor)
  from pass_play_filter_joins_on_integer_keys [of "[?run, ?pass]" example_platform ?tracking,
      OF h1 h2]
  obtain out where out: "filter_for_pass_plays example_platform [?run, ?pass]
        (DataFrame ?tracking) = Inr (DataFrame out)"
    and rows: "\<And>t. t \<in> snd ` set out \<longleftrightarrow>
        t \<in> snd ` set ?tracking
        \<and> (\<exists>p \<in> set [?run, ?pass]. is_pass_play p
              \<and> gameId t = Number (of_int (int64_of example_platform
                                  (the_number example_platform (gameId p))))
              \<and> playId t = Number (of_int (int64_of example_platform
                                  (the_number example_platform (playId p)))))"
    by blast
  have a: "\<lparr>gameId = Number 100, playId = Number 12\<rparr> \<in> snd ` set out"
    unfolding rows using pass by (simp add: k)
  have b: "\<lparr>gameId = Number 100, playId = Number 10\<rparr> \<notin> snd ` set out"
    unfolding rows using pass by (simp add: k)
  from out a b show ?thesis by blast
qed

section \<open>Properties of the play-context merge\<close>

lemma merge_with_plays_eq:
  "merge_with_plays pf plays tracking_data =
     (if \<exists>p \<in> set plays. infinite_key pf p then Inl IntCastingNaNError
      else (case tracking_data of
              EmptyDataFrame \<Rightarrow> Inl KeyError
            | DataFrame rows \<Rightarrow>
                Inr (DataFrame (enumerate 0 (concat (map (\<lambda>t.
                  (case filter (\<lambda>p. (coerced pf (gameId p), coerced pf (playId p)) =
                                      (gameId t, playId t)) plays of
                     [] \<Rightarrow> [(t, missing_context)]
                   | partners \<Rightarrow> map (\<lambda>p. (t, contextual p)) partners)) (map snd rows)))))))"
proof -
  let ?df = "map (\<lambda>(i, r). (i, \<lparr>gameId = gameId r, playId = playId r, contextual = contextual r\<rparr>))
         (read_csv plays)"
  let ?coerced = "map (\<lambda>(i, r). (i, r\<lparr>gameId := coerced pf (gameId r),
                                         playId := coerced pf (playId r)\<rparr>)) ?df"
  have d: "distinct (map fst ?df)"
    unfolding labels_map_frame by (rule distinct_labels_read_csv)
  have rows: "map snd ?df =
      map (\<lambda>r. \<lparr>gameId = gameId r, playId = playId r, contextual = contextual r\<rparr>) plays"
    by (simp only: rows_map_frame rows_read_csv)
  have "snd ` set ?df = set (map snd ?df)" by (simp only: set_map)
  then have members: "snd ` set ?df =
      (\<lambda>r. \<lparr>gameId = gameId r, playId = playId r, contextual = contextual r\<rparr>) ` set plays"
    unfolding rows by simp
  have bad: "(\<exists>r \<in> snd ` set ?df. reads_infinite pf (gameId r) \<or> reads_infinite pf (playId r))
      \<longleftrightarrow> (\<exists>p \<in> set plays. infinite_key pf p)"
    unfolding members by (auto simp: infinite_key_def)
  have "map snd ?coerced =
      map (\<lambda>r. r\<lparr>gameId := coerced pf (gameId r), playId := coerced pf (playId r)\<rparr>)
        (map snd ?df)"
    by (rule rows_map_frame)
  then have coerced: "map snd ?coerced =
      map (\<lambda>p. \<lparr>gameId = coerced pf (gameId p), playId = coerced pf (playId p),
                 contextual = contextual p\<rparr>) plays"
    unfolding rows by (simp add: comp_def)
  have one: "(case filter (\<lambda>r. (gameId r, playId r) = k)
            (map (\<lambda>p. \<lparr>gameId = coerced pf (gameId p), playId = coerced pf (playId p),
                        contextual = contextual p\<rparr>) plays) of
           [] \<Rightarrow> [(t, missing_context)]
         | partners \<Rightarrow> map (\<lambda>r. (t, contextual r)) partners) =
      (case filter (\<lambda>p. (coerced pf (gameId p), coerced pf (playId p)) = k) plays of
           [] \<Rightarrow> [(t, missing_context)]
         | partners \<Rightarrow> map (\<lambda>p. (t, contextual p)) partners)"
    for t :: "'a play_key_scheme" and k
    by (cases "filter (\<lambda>p. (coerced pf (gameId p), coerced pf (playId p)) = k) plays")
      (simp_all add: filter_map comp_def)
  have merged: "merge_left (\<lambda>r. (gameId r, playId r)) (\<lambda>r. (gameId r, playId r))
        (\<lambda>l r. (l, contextual r)) (\<lambda>l. (l, missing_context)) tracking_data ?coerced =
      (case tracking_data of
              EmptyDataFrame \<Rightarrow> Inl KeyError
            | DataFrame rows \<Rightarrow>
                Inr (DataFrame (enumerate 0 (concat (map (\<lambda>t.
                  (case filter (\<lambda>p. (coerced pf (gameId p), coerced pf (playId p)) =
                                      (gameId t, playId t)) plays of
                     [] \<Rightarrow> [(t, missing_context)]
                   | partners \<Rightarrow> map (\<lambda>p. (t, contextual p)) partners)) (map snd rows))))))"
  proof (cases tracking_data)
    case EmptyDataFrame
    then show ?thesis by (simp add: merge_of_no_columns)
  next
    case (DataFrame rows)
    show ?thesis
      unfolding DataFrame merge_left_eq coerced
      by (simp only: one data_frame.case)
  qed
  show ?thesis
    unfolding merge_with_plays_def Let_def coerce_keys_then [OF d] bad merged ..
qed

lemma play_context_merge_rows:
  assumes "\<And>p. p \<in> set plays \<Longrightarrow> \<not> infinite_key pf p"
    and "\<And>t. t \<in> snd ` set tracking \<Longrightarrow> integer_key t"
  shows "merge_with_plays pf plays (DataFrame tracking) =
     Inr (DataFrame (enumerate 0 (concat (map (\<lambda>t.
        (case filter (\<lambda>p. (coerced pf (gameId p), coerced pf (playId p)) = (gameId t, playId t))
                plays of
           [] \<Rightarrow> [(t, missing_context)]
         | partners \<Rightarrow> map (\<lambda>p. (t, contextual p)) partners)) (map snd tracking)))))"
proof -
  from assms(1) have "\<not> (\<exists>p \<in> set plays. infinite_key pf p)" by blast
  then show ?thesis unfolding merge_with_plays_eq by simp
qed

text \<open>
  C8 asks that every row of the tracking table be in the merged output. The code does
  not do that on every play file: when any row of the play file has a \<^verbatim>\<open>gameId\<close> or a
  \<^verbatim>\<open>playId\<close> that reads as an infinity, the conversion to \<^verbatim>\<open>int\<close> raises
  \<^verbatim>\<open>IntCastingNaNError\<close> before the merge, and no row comes out.
\<close>

theorem infinite_play_key_aborts_context_merge:
  assumes "p \<in> set plays" and "infinite_key pf p"
  shows "merge_with_plays pf plays tracking_data = Inl IntCastingNaNError"
proof -
  from assms have "\<exists>p \<in> set plays. infinite_key pf p" by blast
  then show ?thesis unfolding merge_with_plays_eq by (simp only: if_True)
qed

theorem infinite_play_key_aborts_context_merge_witness:
  "merge_with_plays example_platform
     [\<lparr>gameId = Number 100, playId = Number 10,
       contextual = missing_context\<lparr>quarter := Number 1\<rparr>, isDropback = Flag True\<rparr>,
      \<lparr>gameId = Infinity True, playId = Number 11,
       contextual = missing_context, isDropback = Flag False\<rparr>]
     (DataFrame [(0, \<lparr>gameId = Number 100, playId = Number 10\<rparr>)]) =
   Inl IntCastingNaNError"
proof -
  let ?good = "\<lparr>gameId = Number 100, playId = Number 10,
       contextual = missing_context\<lparr>quarter := Number 1\<rparr>, isDropback = Flag True\<rparr>"
  let ?bad = "\<lparr>gameId = Infinity True, playId = Number 11,
       contextual = missing_context, isDropback = Flag False\<rparr>"
  have row: "?bad \<in> set [?good, ?bad]" by simp
  have inf: "infinite_key example_platform ?bad"
    by (simp add: infinite_key_def reads_infinite_def)
  from infinite_play_key_aborts_context_merge [OF row inf] show ?thesis .
qed

section \<open>Identifiers that do not coerce\<close>

text \<open>
  C2 asks that a row whose identifier does not coerce be absent from the output of the
  stage. The code keeps it: on any platform that rejects \<^verbatim>\<open>abc\<close> as a number, a tracking
  row of a valid player in a snap frame whose \<^verbatim>\<open>gameId\<close> is \<^verbatim>\<open>abc\<close> is in the result of
  tracking ingestion, with a missing \<^verbatim>\<open>gameId\<close>, and a roster identifier \<^verbatim>\<open>abc\<close>
  is in the result of the position filter as a missing value.
\<close>

theorem uncoercible_identifier_keeps_the_row:
  assumes "parse_number pf ''abc'' = Missing"
  shows "filter_tracking_data pf [Number 7]
     [(1, [\<lparr>gameId = Text ''abc'', playId = Number 10, nflId = Number 7, frameId = Number 1,
             frameType = Text ''SNAP'', x = cx, y = cy\<rparr>])] 50000 =
   Inr (DataFrame
     [(0, \<lparr>gameId = NaN, playId = Number 10, nflId = Number 7, frameId = Number 1,
           frameType = Text ''SNAP'', x = cx, y = cy, week = Number 1\<rparr>)])
   \<and> filter_players_by_position pf
       [\<lparr>roster_row.nflId = Text ''abc'', position = Text ''QB''\<rparr>] [''QB''] = Inr [NaN]"
proof -
  have ten: "int64_of pf 10 = 10" and seven: "int64_of pf 7 = 7"
    by (simp_all add: int64_of_def truncate_real_def)
  have a: "filter_tracking_data pf [Number 7]
     [(1, [\<lparr>gameId = Text ''abc'', playId = Number 10, nflId = Number 7, frameId = Number 1,
             frameType = Text ''SNAP'', x = cx, y = cy\<rparr>])] 50000 =
   Inr (DataFrame
     [(0, \<lparr>gameId = NaN, playId = Number 10, nflId = Number 7, frameId = Number 1,
           frameType = Text ''SNAP'', x = cx, y = cy, week = Number 1\<rparr>)])"
    using assms
    by (simp add: filter_tracking_data_def filter_week_def read_csv_chunks_def read_csv_def
        filter_chunk_def loc_def isin_def coerce_column_def assign_column_def astype_int_def
        dropna_def to_numeric_def column_def pd_concat_def with_week_def ten seven)
  have b: "filter_players_by_position pf
       [\<lparr>roster_row.nflId = Text ''abc'', position = Text ''QB''\<rparr>] [''QB''] = Inr [NaN]"
    using assms
    by (simp add: filter_players_by_position_def read_csv_def loc_def isin_def
        coerce_column_def assign_column_def astype_int_def dropna_def to_numeric_def
        column_def unique_def)
  from a b show ?thesis by (rule conjI)
qed

theorem uncoercible_identifier_witness:
  "filter_tracking_data example_platform [Number 7]
     [(1, [\<lparr>gameId = Text ''abc'', playId = Number 10, nflId = Number 7, frameId = Number 1,
             frameType = Text ''SNAP'', x = 0 :: real, y = 0\<rparr>])] 50000 =
   Inr (DataFrame
     [(0, \<lparr>gameId = NaN, playId = Number 10, nflId = Number 7, frameId = Number 1,
           frameType = Text ''SNAP'', x = 0, y = 0, week = Number 1\<rparr>)])
   \<and> filter_players_by_position example_platform
       [\<lparr>roster_row.nflId = Text ''abc'', position = Text ''QB''\<rparr>] [''QB''] = Inr [NaN]"
proof -
  have "parse_number example_platform ''abc'' = Missing"
    by (simp add: example_platform_def plain_digits_def is_digit_def)
  then show ?thesis by (rule uncoercible_identifier_keeps_the_row)
qed

section \<open>Properties of the distance engine\<close>

lemma fold_append_if:
  "fold (\<lambda>j ds. if P j then ds @ [f j] else ds) js acc = acc @ map f (filter P js)"
  by (induction js arbitrary: acc) auto

lemma distances_for_player_eq:
  "distances_for_player np ps i =
     map (\<lambda>j. distance np (ps ! i) (ps ! j)) (filter (\<lambda>j. i \<noteq> j) [0..<length ps])"
  by (simp add: distances_for_player_def fold_append_if)

lemma player_summary_alone:
  assumes "length ps = 1"
  shows "player_summary np k ps 0 = Inl ValueError"
proof -
  obtain g p f where k: "k = (g, p, f)" by (cases k)
  from assms have "distances_for_player np ps 0 = []"
    by (simp add: distances_for_player_eq)
  then show ?thesis by (simp add: k np_min_def)
qed

lemma length_frame_players_of: "length (frame_players_of g) = length g"
  by (simp add: frame_players_of_def)

lemma player_summary_error: "player_summary np k ps i = Inl e \<Longrightarrow> e = ValueError"
proof -
  obtain g p f where k: "k = (g, p, f)" by (cases k)
  show "player_summary np k ps i = Inl e \<Longrightarrow> e = ValueError"
    by (auto simp: k Let_def np_min_def np_max_def split: sum.splits if_splits)
qed

lemma group_summaries_error: "group_summaries np k ps js = Inl e \<Longrightarrow> e = ValueError"
  by (induction js) (auto split: sum.splits dest: player_summary_error)

lemma all_summaries_error: "all_summaries np groups = Inl e \<Longrightarrow> e = ValueError"
proof (induction groups)
  case Nil
  then show ?case by simp
next
  case (Cons a groups)
  obtain k g where a: "a = (k, g)" by (cases a)
  from Cons show ?case
    by (auto simp: a Let_def split: sum.splits dest: group_summaries_error)
qed

lemma all_summaries_single:
  assumes "(k, g) \<in> set groups" and "length g = 1"
  shows "\<exists>e. all_summaries np groups = Inl e"
  using assms(1)
proof (induction groups)
  case Nil
  then show ?case by simp
next
  case (Cons a groups)
  obtain k' g' where a: "a = (k', g')" by (cases a)
  show ?case
  proof (cases "a = (k, g)")
    case True
    from assms(2) have "length (frame_players_of g) = 1"
      by (simp add: length_frame_players_of)
    then have "player_summary np k (frame_players_of g) 0 = Inl ValueError"
      by (rule player_summary_alone)
    with True assms(2) show ?thesis
      by (simp add: length_frame_players_of)
  next
    case False
    with Cons.prems have "(k, g) \<in> set groups" by simp
    from Cons.IH [OF this] obtain e where "all_summaries np groups = Inl e" ..
    then show ?thesis
      by (simp add: a Let_def split: sum.splits)
  qed
qed

text \<open>
  C3 asks for exactly one output row for every player of a group of at least two
  players. The code does not emit it when the table also holds a group of one player:
  with two players in frame 1 and one player in frame 2 the run raises \<^verbatim>\<open>ValueError\<close>
  on the group of frame 2, whatever the coordinates are and whatever numpy computes, and
  the two players of frame 1 get no row.
\<close>

theorem pair_beside_single_player_gets_no_row:
  "calculate_player_distances np
     (DataFrame
       [(0, \<lparr>gameId = Number 100, playId = Number 10, nflId = Number 1, frameId = Number 1,
              frameType = Text ''SNAP'', x = x1, y = y1\<rparr>),
        (1, \<lparr>gameId = Number 100, playId = Number 10, nflId = Number 2, frameId = Number 1,
              frameType = Text ''SNAP'', x = x2, y = y2\<rparr>),
        (2, \<lparr>gameId = Number 100, playId = Number 10, nflId = Number 1, frameId = Number 2,
              frameType = Text ''SNAP'', x = x3, y = y3\<rparr>)]) = Inl ValueError"
proof -
  let ?a = "\<lparr>gameId = Number 100, playId = Number 10, nflId = Number 1, frameId = Number 1,
              frameType = Text ''SNAP'', x = x1, y = y1\<rparr>"
  let ?b = "\<lparr>gameId = Number 100, playId = Number 10, nflId = Number 2, frameId = Number 1,
              frameType = Text ''SNAP'', x = x2, y = y2\<rparr>"
  let ?c = "\<lparr>gameId = Number 100, playId = Number 10, nflId = Number 1, frameId = Number 2,
              frameType = Text ''SNAP'', x = x3, y = y3\<rparr>"
  let ?groups = "[((Number 100, Number 10, Number 1), [(0::nat, ?a), (1, ?b)]),
                  ((Number 100, Number 10, Number 2), [(2, ?c)])]"
  have groups: "groupby (\<lambda>r. (gameId r, playId r, frameId r))
      (DataFrame [(0, ?a), (1, ?b), (2, ?c)]) = Inr ?groups"
    by (simp add: groupby_def sort_keys_def)
  have "\<exists>e. all_summaries np ?groups = Inl e"
    by (rule all_summaries_single [of "(Number 100, Number 10, Number 2)" "[(2, ?c)]"])
      simp_all
  then obtain e where e: "all_summaries np ?groups = Inl e" ..
  from all_summaries_error [OF e] have "all_summaries np ?groups = Inl ValueError"
    using e by simp
  then show ?thesis
    unfolding calculate_player_distances_def groups by simp
qed

section \<open>A group of one player\<close>

text \<open>
  C1 asks that a group of exactly one player yield missing statistics and that the run
  not fail. The code fails: whenever the table has a group of one player, the distance
  computation raises \<^verbatim>\<open>ValueError\<close> (the list of distances of that player is empty
  and \<^verbatim>\<open>np.min\<close> rejects it), and no row is emitted for any group.
\<close>

theorem single_player_group_raises:
  assumes "groupby (\<lambda>r. (gameId r, playId r, frameId r)) df = Inr groups"
    and "(k, g) \<in> set groups"
    and "length g = 1"
  shows "calculate_player_distances np df = Inl ValueError"
proof -
  from all_summaries_single [OF assms(2, 3)] obtain e where
    e: "all_summaries np groups = Inl e" ..
  from all_summaries_error [OF e] e assms(1) show ?thesis
    by (simp add: calculate_player_distances_def)
qed

theorem single_player_group_witness:
  "\<forall>np :: real numpy. calculate_player_distances np
     (DataFrame
       [(0, \<lparr>gameId = Number 100, playId = Number 10, nflId = Number 1, frameId = Number 1,
              frameType = Text ''SNAP'', x = 0, y = 0\<rparr>)]) = Inl ValueError"
proof
  fix np :: "real numpy"
  let ?row = "\<lparr>gameId = Number 100, playId = Number 10, nflId = Number 1, frameId = Number 1,
            frameType = Text ''SNAP'', x = 0 :: real, y = 0 :: real\<rparr>"
  have group: "groupby (\<lambda>r. (gameId r, playId r, frameId r)) (DataFrame [(0, ?row)]) =
      Inr [((Number 100, Number 10, Number 1), [(0::nat, ?row)])]"
    by (simp add: groupby_def sort_keys_def)
  have member: "((Number 100, Number 10, Number 1), [(0::nat, ?row)])
      \<in> set [((Number 100, Number 10, Number 1), [(0::nat, ?row)])]"
    by simp
  have one: "length [(0::nat, ?row)] = 1" by simp
  from single_player_group_raises [OF group member one]
  show "calculate_player_distances np (DataFrame [(0, ?row)]) = Inl ValueError" .
qed

end
